theory Spec2Isabelle
  imports Main "HOL-Library.Word"
begin

section \<open>Buffers and little-endian fields\<close>

text \<open>
  A Node \<open>Buffer\<close> is a list of bytes. \<open>Buffer.alloc n\<close> is \<open>n\<close> zero bytes; memory
  limits of the runtime are not modelled. \<open>buffer.write(str, offset)\<close> and
  \<open>source.copy(target, offset)\<close> overwrite the bytes from \<open>offset\<close> on and stop at
  the end of the target. \<open>writeUInt16LE\<close> and \<open>writeUInt32LE\<close> raise a RangeError when
  the value does not fit the field or the field does not fit the buffer.
\<close>

type_synonym byte = "8 word"

text \<open>The errors the modelled code raises or receives, one constructor for each.\<close>

datatype js_error =
    RangeError
  | TypeError
  | SyntaxError
  | ApiKeyRequired
  | EmptyResponse
  | NoJsonObject
  | NotAuthenticated
  | NotActivated
  | TokenLimit
  | BackendError
  | DeviceError

definition bindE :: "js_error + 'a \<Rightarrow> ('a \<Rightarrow> js_error + 'b) \<Rightarrow> js_error + 'b" where
  "bindE m f = (case m of Inl e \<Rightarrow> Inl e | Inr x \<Rightarrow> f x)"

definition alloc :: "nat \<Rightarrow> byte list" where
  "alloc n = replicate n 0"

definition buf_write :: "byte list \<Rightarrow> byte list \<Rightarrow> nat \<Rightarrow> byte list" where
  "buf_write buffer bs off =
     take off buffer @ take (length buffer - off) bs @ drop (off + length bs) buffer"

definition ascii :: "string \<Rightarrow> byte list" where
  "ascii s = map (\<lambda>c. of_nat (of_char c)) s"

definition le_bytes :: "nat \<Rightarrow> nat \<Rightarrow> byte list" where
  "le_bytes k v = map (\<lambda>i. of_nat (v div 256 ^ i mod 256)) [0..<k]"

definition writeUIntLE :: "nat \<Rightarrow> byte list \<Rightarrow> nat \<Rightarrow> nat \<Rightarrow> js_error + byte list" where
  "writeUIntLE k buffer v off =
     (if v \<ge> 256 ^ k \<or> off + k > length buffer then Inl RangeError
      else Inr (buf_write buffer (le_bytes k v) off))"

definition writeUInt16LE :: "byte list \<Rightarrow> nat \<Rightarrow> nat \<Rightarrow> js_error + byte list" where
  "writeUInt16LE = writeUIntLE 2"

definition writeUInt32LE :: "byte list \<Rightarrow> nat \<Rightarrow> nat \<Rightarrow> js_error + byte list" where
  "writeUInt32LE = writeUIntLE 4"

text \<open>Reading a little-endian field back, as a WAV decoder does.\<close>

definition readUIntLE :: "byte list \<Rightarrow> nat \<Rightarrow> nat \<Rightarrow> nat" where
  "readUIntLE buffer off k = (\<Sum>i\<leftarrow>[0..<k]. unat (buffer ! (off + i)) * 256 ^ i)"

section \<open>GroqSTTClient.createWavBuffer\<close>

definition createWavBuffer :: "byte list \<Rightarrow> js_error + byte list" where
  "createWavBuffer pcmData =
     (let sampleRate = 16000;
          numChannels = 1;
          bitsPerSample = 16;
          byteRate = sampleRate * numChannels * (bitsPerSample div 8);
          blockAlign = numChannels * (bitsPerSample div 8);
          dataSize = length pcmData;
          b0 = alloc (44 + dataSize);
          b1 = buf_write b0 (ascii ''RIFF'') 0
      in bindE (writeUInt32LE b1 (36 + dataSize) 4) (\<lambda>b2.
         let b3 = buf_write b2 (ascii ''WAVE'') 8;
             b4 = buf_write b3 (ascii ''fmt '') 12
         in bindE (writeUInt32LE b4 16 16) (\<lambda>b5.
            bindE (writeUInt16LE b5 1 20) (\<lambda>b6.
            bindE (writeUInt16LE b6 numChannels 22) (\<lambda>b7.
            bindE (writeUInt32LE b7 sampleRate 24) (\<lambda>b8.
            bindE (writeUInt32LE b8 byteRate 28) (\<lambda>b9.
            bindE (writeUInt16LE b9 blockAlign 32) (\<lambda>b10.
            bindE (writeUInt16LE b10 bitsPerSample 34) (\<lambda>b11.
            let b12 = buf_write b11 (ascii ''data'') 36
            in bindE (writeUInt32LE b12 dataSize 40) (\<lambda>b13.
               Inr (buf_write b13 pcmData 44)))))))))))"

text \<open>The 44 header bytes the function is meant to produce for \<open>n\<close> bytes of audio.\<close>

definition wav_header :: "nat \<Rightarrow> byte list" where
  "wav_header n =
     ascii ''RIFF'' @ le_bytes 4 (36 + n) @ ascii ''WAVE'' @
     ascii ''fmt '' @ le_bytes 4 16 @ le_bytes 2 1 @ le_bytes 2 1 @
     le_bytes 4 16000 @ le_bytes 4 32000 @ le_bytes 2 2 @ le_bytes 2 16 @
     ascii ''data'' @ le_bytes 4 n"

section \<open>JavaScript strings\<close>

text \<open>
  A JavaScript string is a list of code units; the model keeps the code units 0 to 255
  (Latin-1), where \<open>toLowerCase\<close> never changes the length of a string. White space is
  what \<open>trim\<close> and the regular expression class \<open>\s\<close> accept in that range; a word
  character is what \<open>\w\<close> accepts.
\<close>

definition is_space :: "char \<Rightarrow> bool" where
  "is_space c = (of_char c \<in> {9, 10, 11, 12, 13, 32, 160 :: nat})"

definition is_word_char :: "char \<Rightarrow> bool" where
  "is_word_char c =
     (let n = of_char c :: nat
      in (48 \<le> n \<and> n \<le> 57) \<or> (65 \<le> n \<and> n \<le> 90) \<or> n = 95 \<or> (97 \<le> n \<and> n \<le> 122))"

definition toLowerChar :: "char \<Rightarrow> char" where
  "toLowerChar c =
     (let n = of_char c :: nat
      in if (65 \<le> n \<and> n \<le> 90) \<or> (192 \<le> n \<and> n \<le> 222 \<and> n \<noteq> 215)
         then char_of (n + 32) else c)"

definition toLowerCase :: "string \<Rightarrow> string" where
  "toLowerCase s = map toLowerChar s"

definition trim :: "string \<Rightarrow> string" where
  "trim s = rev (dropWhile is_space (rev (dropWhile is_space s)))"

fun startsWith :: "string \<Rightarrow> string \<Rightarrow> bool" where
  "startsWith s [] = True"
| "startsWith [] (p # ps) = False"
| "startsWith (c # cs) (p # ps) = (c = p \<and> startsWith cs ps)"

fun includes_str :: "string \<Rightarrow> string \<Rightarrow> bool" where
  "includes_str [] p = startsWith [] p"
| "includes_str (c # cs) p = (startsWith (c # cs) p \<or> includes_str cs p)"

text \<open>\<open>indexOf\<close> and \<open>lastIndexOf\<close> return \<open>None\<close> where JavaScript returns -1.\<close>

fun indexOf :: "string \<Rightarrow> string \<Rightarrow> nat option" where
  "indexOf [] p = (if startsWith [] p then Some 0 else None)"
| "indexOf (c # cs) p =
     (if startsWith (c # cs) p then Some 0 else map_option Suc (indexOf cs p))"

fun lastIndexOf :: "string \<Rightarrow> string \<Rightarrow> nat option" where
  "lastIndexOf [] p = (if startsWith [] p then Some 0 else None)"
| "lastIndexOf (c # cs) p =
     (case lastIndexOf cs p of
        Some i \<Rightarrow> Some (Suc i)
      | None \<Rightarrow> if startsWith (c # cs) p then Some 0 else None)"

definition substring :: "string \<Rightarrow> nat \<Rightarrow> nat \<Rightarrow> string" where
  "substring s a b = take (max a b - min a b) (drop (min a b) s)"

text \<open>
  Matching under the \<open>i\<close> flag compares code units after case folding. \<open>\b\<close> holds
  between two neighbouring positions exactly one of which is a word character; the
  positions before the first and after the last code unit count as non-word.
\<close>

definition eq_ci :: "string \<Rightarrow> string \<Rightarrow> bool" where
  "eq_ci a b = (toLowerCase a = toLowerCase b)"

definition is_word_opt :: "char option \<Rightarrow> bool" where
  "is_word_opt c = (case c of None \<Rightarrow> False | Some x \<Rightarrow> is_word_char x)"

definition head_opt :: "string \<Rightarrow> char option" where
  "head_opt s = (case s of [] \<Rightarrow> None | c # cs \<Rightarrow> Some c)"

definition last_opt :: "char option \<Rightarrow> string \<Rightarrow> char option" where
  "last_opt prev s = (if s = [] then prev else Some (last s))"

definition is_boundary :: "char option \<Rightarrow> char option \<Rightarrow> bool" where
  "is_boundary a b = (is_word_opt a \<noteq> is_word_opt b)"

section \<open>TriggerWordDetector\<close>

record TriggerWordDetector =
  triggerWord :: string
  deactivatePhrase :: string
  enabled :: bool
  caseSensitive :: bool

datatype trigger_type = activate | deactivate

text \<open>
  The detection result: \<open>matched\<close> is the field \<open>phrase\<close> of a deactivate result and the
  field \<open>word\<close> of an activate result; \<open>confidence\<close> is the constant 1.0.
\<close>

record detection =
  dtype :: trigger_type
  matched :: string
  originalText :: string
  confidence :: nat

text \<open>
  \<open>containsWord\<close> tests the regular expression \<open>\bWORD\b\<close> with the \<open>i\<close> flag, where
  \<open>escapeRegex\<close> has made every character of the word a literal: \<open>matchWordAt prev s w\<close>
  is a match that begins at the front of \<open>s\<close>, with \<open>prev\<close> the code unit before it.
\<close>

definition matchWordAt :: "char option \<Rightarrow> string \<Rightarrow> string \<Rightarrow> bool" where
  "matchWordAt prev s w =
     (length w \<le> length s \<and> eq_ci (take (length w) s) w \<and>
      is_boundary prev (head_opt s) \<and>
      is_boundary (last_opt prev (take (length w) s)) (head_opt (drop (length w) s)))"

fun regexWordTest :: "char option \<Rightarrow> string \<Rightarrow> string \<Rightarrow> bool" where
  "regexWordTest prev [] w = matchWordAt prev [] w"
| "regexWordTest prev (c # cs) w = (matchWordAt prev (c # cs) w \<or> regexWordTest (Some c) cs w)"

definition containsWord :: "string \<Rightarrow> string \<Rightarrow> bool" where
  "containsWord text w = regexWordTest None text w"

definition containsPhrase :: "string \<Rightarrow> string \<Rightarrow> bool" where
  "containsPhrase text phrase = includes_str text phrase"

definition detect :: "TriggerWordDetector \<Rightarrow> string \<Rightarrow> detection option" where
  "detect d text =
     (if \<not> enabled d \<or> text = [] then None
      else
        let normalizedText = (if caseSensitive d then trim text else toLowerCase (trim text));
            normalizedTrigger =
              (if caseSensitive d then triggerWord d else toLowerCase (triggerWord d));
            normalizedDeactivate =
              (if caseSensitive d then deactivatePhrase d else toLowerCase (deactivatePhrase d))
        in if containsPhrase normalizedText normalizedDeactivate
           then Some \<lparr>dtype = deactivate, matched = deactivatePhrase d,
                       originalText = text, confidence = 1\<rparr>
           else if containsWord normalizedText normalizedTrigger
           then Some \<lparr>dtype = activate, matched = triggerWord d,
                       originalText = text, confidence = 1\<rparr>
           else None)"

section \<open>GroqSTTClient: the transcription session\<close>

text \<open>
  The fields of the client that its methods read and write. \<open>groqClient\<close> tells whether
  the SDK client has been created; a time is a reading of \<open>Date.now()\<close>, \<open>None\<close> is
  \<open>null\<close>.
\<close>

record GroqSTTClient =
  apiKey :: string
  bufferDuration :: int
  groqClient :: bool
  isConnected :: bool
  sessionStartTime :: "int option"
  audioBuffer :: "byte list list"
  bufferStartTime :: "int option"
  isProcessing :: bool

text \<open>
  What a method does to the outside: the events it emits, the WAV it submits to the
  transcription backend, and its \<open>console.warn\<close> and \<open>console.error\<close> lines
  (\<open>console.log\<close> is not recorded). A \<open>transcription\<close> event carries the trimmed
  text and the language; its \<open>isFinal\<close> is always true and its \<open>confidence\<close> always
  1.0. Event listeners are taken not to raise.
\<close>

datatype stt_out =
    EmitOpen
  | EmitClose
  | EmitError js_error
  | EmitTranscription string "string option"
  | EmitLanguageDetected string
  | Request "byte list"
  | Warn
  | Err

text \<open>
  The backend's answer to one request: the transcription's \<open>text\<close> (empty when absent)
  and \<open>language\<close> (\<open>None\<close> when absent), or a rejected promise.
\<close>

datatype reply = Transcription string "string option" | Rejected

definition new_GroqSTTClient :: "string \<Rightarrow> int \<Rightarrow> GroqSTTClient" where
  "new_GroqSTTClient key duration =
     \<lparr>apiKey = key, bufferDuration = (if duration = 0 then 3000 else duration),
      groqClient = False, isConnected = False, sessionStartTime = None,
      audioBuffer = [], bufferStartTime = None, isProcessing = False\<rparr>"

definition initialize :: "GroqSTTClient \<Rightarrow> (js_error + unit) \<times> GroqSTTClient \<times> stt_out list" where
  "initialize s =
     (if apiKey s = [] then (Inl ApiKeyRequired, s, [Err])
      else (Inr (), s\<lparr>groqClient := True\<rparr>, []))"

definition startSession ::
  "int \<Rightarrow> GroqSTTClient \<Rightarrow> (js_error + unit) \<times> GroqSTTClient \<times> stt_out list" where
  "startSession now s =
     (let (r, s1, out1) = (if \<not> groqClient s then initialize s else (Inr (), s, []))
      in case r of
           Inl e \<Rightarrow> (Inl e, s1\<lparr>isConnected := False\<rparr>, out1 @ [Err, EmitError e])
         | Inr u \<Rightarrow>
             if isConnected s1 then (Inr (), s1, out1 @ [Warn])
             else (Inr (),
                   s1\<lparr>audioBuffer := [], bufferStartTime := Some now, isConnected := True,
                      sessionStartTime := Some now\<rparr>,
                   out1 @ [EmitOpen]))"

text \<open>
  \<open>processBuffer\<close> runs to its only suspension point, the call of the transcription
  backend, in \<open>processBuffer_begin\<close>: the third component tells whether a request has
  been submitted and the method now waits for the reply. A failure before that point
  (here: \<open>createWavBuffer\<close> raising) reaches the outer \<open>catch\<close> and the \<open>finally\<close> at
  once. Writing and removing the temporary file are taken to succeed.
\<close>

definition processBuffer_begin ::
  "int \<Rightarrow> GroqSTTClient \<Rightarrow> GroqSTTClient \<times> stt_out list \<times> bool" where
  "processBuffer_begin now s =
     (if audioBuffer s = [] \<or> isProcessing s then (s, [], False)
      else
        let audioData = concat (audioBuffer s);
            s1 = s\<lparr>isProcessing := True, audioBuffer := [], bufferStartTime := Some now\<rparr>
        in case createWavBuffer audioData of
             Inl e \<Rightarrow> (s1\<lparr>isProcessing := False\<rparr>, [Err, EmitError e], False)
           | Inr wavBuffer \<Rightarrow> (s1, [Request wavBuffer], True))"

text \<open>
  \<open>processBuffer_resume\<close> is the rest of the method, from the reply on: the events of a
  non-blank transcription, or the inner \<open>catch\<close> of a rejected request, and the
  \<open>finally\<close>.
\<close>

definition processBuffer_resume :: "reply \<Rightarrow> GroqSTTClient \<Rightarrow> GroqSTTClient \<times> stt_out list" where
  "processBuffer_resume r s =
     (case r of
        Transcription text language \<Rightarrow>
          (s\<lparr>isProcessing := False\<rparr>,
           if text \<noteq> [] \<and> trim text \<noteq> []
           then EmitTranscription (trim text) language #
                (case language of
                   None \<Rightarrow> []
                 | Some l \<Rightarrow> if l \<noteq> [] then [EmitLanguageDetected l] else [])
           else [])
      | Rejected \<Rightarrow> (s\<lparr>isProcessing := False\<rparr>, [Err]))"

text \<open>
  \<open>sendAudio\<close> returns whether the chunk was accepted; the last component tells whether
  the call has started a flush that now waits for the backend. Both clock readings of
  one call are the same instant.
\<close>

definition sendAudio ::
  "byte list \<Rightarrow> int \<Rightarrow> GroqSTTClient \<Rightarrow> bool \<times> GroqSTTClient \<times> stt_out list \<times> bool" where
  "sendAudio audioData now s =
     (if \<not> isConnected s then (False, s, [Warn], False)
      else if audioData = [] then (False, s, [], False)
      else
        let s1 = s\<lparr>audioBuffer := audioBuffer s @ [audioData]\<rparr>;
            duration = now - (case bufferStartTime s1 of None \<Rightarrow> 0 | Some t \<Rightarrow> t)
        in if duration \<ge> bufferDuration s1 \<and> \<not> isProcessing s1
           then (let (s2, out, waiting) = processBuffer_begin now s1
                 in (True, s2, out, waiting))
           else (True, s1, [], False))"

text \<open>
  \<open>stopSession\<close> up to its suspension point, and after it. \<open>stopSession_begin\<close> answers
  \<open>True\<close> in its last component when the call waits for a flush that it has started
  itself; otherwise the call has already run \<open>stopSession_finish\<close>.
\<close>

definition stopSession_finish :: "GroqSTTClient \<Rightarrow> GroqSTTClient \<times> stt_out list" where
  "stopSession_finish s =
     (s\<lparr>isConnected := False, audioBuffer := [], bufferStartTime := None,
        sessionStartTime := None\<rparr>,
      [EmitClose])"

definition stopSession_begin ::
  "int \<Rightarrow> GroqSTTClient \<Rightarrow> GroqSTTClient \<times> stt_out list \<times> bool" where
  "stopSession_begin now s =
     (if \<not> isConnected s then (s, [], False)
      else
        let (s1, out1, waiting) =
              (if audioBuffer s \<noteq> [] then processBuffer_begin now s else (s, [], False))
        in if waiting then (s1, out1, True)
           else (let (s2, out2) = stopSession_finish s1 in (s2, out1 @ out2, False)))"

subsection \<open>Runs of a session\<close>

text \<open>
  A run is a sequence of calls from the outside and of replies from the backend. Between
  two of them the client runs without interruption, as JavaScript does between two
  suspension points. The run records the chunks that \<open>sendAudio\<close> accepted, everything
  the client put out, and whether a \<open>stopSession\<close> call waits for its final flush.
\<close>

datatype call =
    StartSession int
  | SendAudio "byte list" int
  | FlushDone reply
  | StopSession int

record run =
  client :: GroqSTTClient
  stopping :: bool
  accepted :: "byte list list"
  trace :: "stt_out list"

definition step :: "call \<Rightarrow> run \<Rightarrow> run" where
  "step c r =
     (case c of
        StartSession now \<Rightarrow>
          (let (res, s, out) = startSession now (client r)
           in r\<lparr>client := s, trace := trace r @ out\<rparr>)
      | SendAudio audioData now \<Rightarrow>
          (let (ok, s, out, waiting) = sendAudio audioData now (client r)
           in r\<lparr>client := s, trace := trace r @ out,
                accepted := (if ok then accepted r @ [audioData] else accepted r)\<rparr>)
      | FlushDone rep \<Rightarrow>
          (if \<not> isProcessing (client r) then r
           else
             let (s, out) = processBuffer_resume rep (client r)
             in if stopping r
                then (let (s', out') = stopSession_finish s
                      in r\<lparr>client := s', trace := trace r @ out @ out', stopping := False\<rparr>)
                else r\<lparr>client := s, trace := trace r @ out\<rparr>)
      | StopSession now \<Rightarrow>
          (let (s, out, waiting) = stopSession_begin now (client r)
           in r\<lparr>client := s, trace := trace r @ out,
                stopping := (stopping r \<or> waiting)\<rparr>))"

definition exec :: "call list \<Rightarrow> run \<Rightarrow> run" where
  "exec cs r = fold step cs r"

definition fresh :: "GroqSTTClient \<Rightarrow> run" where
  "fresh s = \<lparr>client = s, stopping = False, accepted = [], trace = []\<rparr>"

definition requests :: "stt_out list \<Rightarrow> byte list list" where
  "requests out = concat (map (\<lambda>e. case e of Request w \<Rightarrow> [w] | _ \<Rightarrow> []) out)"

text \<open>
  An awaited \<open>stopSession()\<close>: the call, the audio that arrives while its final flush is
  in flight, the backend's reply to that flush, and the rest of the call.
\<close>

definition sendAll :: "(byte list \<times> int) list \<Rightarrow> GroqSTTClient \<times> stt_out list
    \<Rightarrow> GroqSTTClient \<times> stt_out list" where
  "sendAll chunks = fold (\<lambda>(audioData, now) (s, out).
       let (ok, s', out', waiting) = sendAudio audioData now s in (s', out @ out')) chunks"

definition stopSession ::
  "int \<Rightarrow> (byte list \<times> int) list \<Rightarrow> reply \<Rightarrow> GroqSTTClient \<Rightarrow> GroqSTTClient \<times> stt_out list" where
  "stopSession now chunks rep s =
     (let (s1, out1, waiting) = stopSession_begin now s
      in if \<not> waiting then (s1, out1)
         else
           let (s2, out2) = sendAll chunks (s1, out1);
               (s3, out3) = processBuffer_resume rep s2;
               (s4, out4) = stopSession_finish s3
           in (s4, out2 @ out3 @ out4))"

section \<open>CrewAIAgent: intent extraction by a language model\<close>

text \<open>
  \<open>JSON.parse\<close> is the runtime's; the model takes it as a parameter that returns
  \<open>None\<close> where \<open>JSON.parse\<close> raises a SyntaxError. An object is the list of its
  properties.
\<close>

datatype json =
    JNull
  | JBool bool
  | JNum int
  | JStr string
  | JArr "json list"
  | JObj "(string \<times> json) list"

text \<open>
  An element of the command list of a result: a canonical token, or one of the two values
  that are not strings and that \<open>normalizeCommand\<close> can return (see below).
\<close>

datatype command = Token string | ObjectConstructor | ObjectPrototype

record IntentResult =
  text' :: string
  commands :: "command list"

definition endsWith :: "string \<Rightarrow> string \<Rightarrow> bool" where
  "endsWith s p = startsWith (rev s) (rev p)"

definition slice :: "string \<Rightarrow> nat \<Rightarrow> nat \<Rightarrow> string" where
  "slice s a b = take (b - a) (drop a s)"

definition extractJsonObject :: "string \<Rightarrow> js_error + string" where
  "extractJsonObject text =
     (if text = [] then Inl EmptyResponse
      else case (indexOf text ''{'', lastIndexOf text ''}'') of
             (Some start, Some end') \<Rightarrow>
               if end' \<le> start then Inl NoJsonObject else Inr (slice text start (end' + 1))
           | _ \<Rightarrow> Inl NoJsonObject)"

text \<open>
  The two \<open>replace\<close> calls that remove a Markdown fence: the opening fence with the
  white space after it, and a closing fence at the very end with the white space before
  it.
\<close>

definition stripOpening :: "nat \<Rightarrow> string \<Rightarrow> string" where
  "stripOpening n content = dropWhile is_space (drop n content)"

definition stripClosing :: "string \<Rightarrow> string" where
  "stripClosing content =
     (if endsWith content ''```''
      then rev (dropWhile is_space (rev (take (length content - 3) content)))
      else content)"

definition stripFence :: "string \<Rightarrow> string" where
  "stripFence content =
     (if startsWith content ''```json'' then stripClosing (stripOpening 7 content)
      else if startsWith content ''```'' then stripClosing (stripOpening 3 content)
      else content)"

text \<open>
  The table \<open>variations\<close> and the field \<open>commandMapping\<close>, in the order of the source.
\<close>

definition variations :: "(string \<times> string) list" where
  "variations =
     [(''sent'', ''enter''), (''send'', ''enter''), (''send it'', ''enter''),
      (''send the message'', ''enter''), (''send this'', ''enter''),
      (''send this message'', ''enter''), (''post'', ''enter''), (''post this'', ''enter''),
      (''submit'', ''enter''), (''submit this'', ''enter''), (''return'', ''enter''),
      (''newline'', ''enter''), (''new line'', ''enter''), (''next line'', ''enter''),
      (''press enter'', ''enter''), (''press tab'', ''tab''), (''hit enter'', ''enter''),
      (''hit tab'', ''tab''), (''select all'', ''ctrl+a''), (''select everything'', ''ctrl+a''),
      (''copy'', ''ctrl+c''), (''copy it'', ''ctrl+c''), (''paste'', ''ctrl+v''),
      (''paste it'', ''ctrl+v''), (''cut'', ''ctrl+x''), (''cut it'', ''ctrl+x'')]"

definition commandMapping :: "(string \<times> string) list" where
  "commandMapping =
     [(''enter'', ''enter''), (''return'', ''enter''), (''sent'', ''enter''),
      (''send'', ''enter''), (''new line'', ''enter''), (''tab'', ''tab''),
      (''select all'', ''ctrl+a''), (''select everything'', ''ctrl+a''),
      (''copy'', ''ctrl+c''), (''paste'', ''ctrl+v''), (''cut'', ''ctrl+x''),
      (''undo'', ''ctrl+z''), (''redo'', ''ctrl+y''), (''save'', ''ctrl+s'')]"

definition validSimpleKeys :: "string list" where
  "validSimpleKeys =
     [''enter'', ''tab'', ''backspace'', ''delete'', ''space'', ''escape'', ''esc'']"

text \<open>
  One element of \<open>parsed.commands\<close> to a command, or \<open>None\<close> for null. The lookup
  \<open>variations[normalized]\<close> finds the keys of the table and also the properties that
  every object inherits; of these only \<open>constructor\<close> and \<open>__proto__\<close> have names in
  lower case, and their values, a function and an object, are truthy: they are returned
  as they are and pass the filter for null.
\<close>

definition normalizeCommand :: "json \<Rightarrow> command option" where
  "normalizeCommand cmd =
     (case cmd of
        JStr c \<Rightarrow>
          if c = [] then None
          else
            let normalized = trim (toLowerCase c)
            in if normalized = ''constructor'' then Some ObjectConstructor
               else if normalized = ''__proto__'' then Some ObjectPrototype
               else
                 (case map_of variations normalized of
                    Some v \<Rightarrow> Some (Token v)
                  | None \<Rightarrow>
                      (case map_of commandMapping normalized of
                         Some v \<Rightarrow> Some (Token v)
                       | None \<Rightarrow>
                           if includes_str normalized ''ctrl+'' \<or>
                              includes_str normalized ''shift+'' \<or>
                              includes_str normalized ''alt+''
                           then Some (Token normalized)
                           else if normalized \<in> set validSimpleKeys then Some (Token normalized)
                           else None))
      | _ \<Rightarrow> None)"

text \<open>
  The reply of the chat-completion call: a rejected promise or a reply without choices, or
  the \<open>content\<close> of the first choice (\<open>None\<close> when absent) together with what
  recording the token usage does.
\<close>

datatype tracking = NoUsage | UsageRecorded | UsageFailed

datatype completion = ApiFailure | Completion "string option" tracking

record CrewAIAgent =
  agentEnabled :: bool
  agentClient :: bool

definition isEnabled :: "CrewAIAgent \<Rightarrow> bool" where
  "isEnabled a = (agentEnabled a \<and> agentClient a)"

text \<open>The body of the \<open>try\<close> block of \<open>analyze\<close>: \<open>Inl\<close> is an exception raised in it.\<close>

definition analyze_try ::
  "(string \<Rightarrow> json option) \<Rightarrow> completion \<Rightarrow> string \<Rightarrow> js_error + IntentResult" where
  "analyze_try jsonParse reply transcribedText =
     (case reply of
        ApiFailure \<Rightarrow> Inl BackendError
      | Completion c usage \<Rightarrow>
          let content = (case c of None \<Rightarrow> [] | Some x \<Rightarrow> trim x)
          in if usage = UsageFailed then Inl BackendError
             else
               bindE (extractJsonObject (stripFence content)) (\<lambda>jsonText.
                 case jsonParse jsonText of
                   None \<Rightarrow> Inl SyntaxError
                 | Some JNull \<Rightarrow> Inl TypeError
                 | Some parsed \<Rightarrow>
                     let props = (case parsed of JObj kvs \<Rightarrow> kvs | _ \<Rightarrow> []);
                         text = (case map_of props ''text'' of
                                   None \<Rightarrow> JStr transcribedText
                                 | Some v \<Rightarrow> v);
                         cmds = (case map_of props ''commands'' of
                                   Some (JArr xs) \<Rightarrow> xs
                                 | _ \<Rightarrow> []);
                         normalizedCommands = map the (filter (\<lambda>c. c \<noteq> None) (map normalizeCommand cmds))
                     in (case text of
                           JStr t \<Rightarrow> Inr \<lparr>text' = trim t, commands = normalizedCommands\<rparr>
                         | _ \<Rightarrow> Inl TypeError)))"

definition analyze ::
  "CrewAIAgent \<Rightarrow> (string \<Rightarrow> json option) \<Rightarrow> completion \<Rightarrow> string \<Rightarrow> js_error + IntentResult" where
  "analyze a jsonParse reply transcribedText =
     (if \<not> agentEnabled a \<or> \<not> agentClient a
      then Inr \<lparr>text' = transcribedText, commands = []\<rparr>
      else if transcribedText = [] \<or> trim transcribedText = []
      then Inr \<lparr>text' = [], commands = []\<rparr>
      else case analyze_try jsonParse reply transcribedText of
             Inr result \<Rightarrow> Inr result
           | Inl e \<Rightarrow> Inr \<lparr>text' = transcribedText, commands = []\<rparr>)"

section \<open>SpeechRecognitionController\<close>

datatype ctrl_state = idle | listening | background_listening | processing | error

text \<open>
  The events of the controller. \<open>EvCommand\<close> is the \<open>command\<close> event of the fallback
  grammar, with the command and the original text; \<open>EvCommands\<close> is the \<open>command\<close>
  event of the agent path, with the list of commands and the original text.
\<close>

datatype ctrl_event =
    EvStarted
  | EvStopped
  | EvInterim string
  | EvText string
  | EvCommand string string
  | EvCommands "command list" string
  | EvError js_error
  | EvStateChange ctrl_state ctrl_state
  | EvAuthenticationRequired
  | EvActivationRequired string
  | EvTokenLimitExceeded
  | EvMicrophoneUnavailable
  | EvTriggerActivated detection
  | EvTriggerDeactivated detection
  | EvBackgroundListeningStopped
  | EvTranslated string string string

text \<open>
  What the controller does to the outside: the events it emits, its calls of the
  microphone, of the transcription session and of the text injector, and its
  \<open>console.warn\<close> and \<open>console.error\<close> lines. Calls of the indicator window,
  lines of the log file and \<open>console.log\<close> are not recorded. The text injector is taken
  not to fail when it is given a string.
\<close>

datatype action =
    Emit ctrl_event
  | MicStart
  | MicStop
  | SttStartSession
  | SttStopSession
  | TypeText string
  | ExecuteCommand string
  | LogWarn
  | LogError

record SpeechRecognitionController =
  state :: ctrl_state
  backgroundListening :: bool
  lastInterimText :: string
  finalTextBuffer :: string

text \<open>
  \<open>CommandParser.parse\<close> is not part of the sources at hand: the controller takes it as
  a parameter. Its result has a \<open>type\<close> (\<open>command\<close> or \<open>text\<close>), a \<open>value\<close> and
  the \<open>originalText\<close>.
\<close>

record parsed =
  isCommand :: bool
  pvalue :: string
  poriginalText :: string

text \<open>
  The answer of \<open>translateToEnglish\<close>: an exception, or \<open>isEnglish\<close>,
  \<open>translatedText\<close> and \<open>detectedLanguage\<close>.
\<close>

datatype translation = TranslationFailed | Translated bool string string

text \<open>
  What the collaborators answer during one call of the controller: the authentication
  service, the permission check and the quota check; whether starting the session or the
  microphone raises; the trigger word detector; the translation service (\<open>None\<close> when
  it is not enabled); the agent with the runtime's JSON parser and the backend's reply;
  the configuration flag \<open>voiceCommands\<close> and the command parser.
\<close>

record collaborators =
  authenticated :: bool
  hasPermission :: bool
  limitAllowed :: bool
  sttStart :: "js_error option"
  micStart :: "js_error option"
  triggerWordDetector :: TriggerWordDetector
  translationService :: "translation option"
  crewAIAgent :: CrewAIAgent
  jsonParse :: "string \<Rightarrow> json option"
  agentReply :: completion
  voiceCommands :: bool
  parse :: "string \<Rightarrow> parsed"

definition setState ::
  "ctrl_state \<Rightarrow> SpeechRecognitionController \<Rightarrow> SpeechRecognitionController \<times> action list" where
  "setState newState c = (c\<lparr>state := newState\<rparr>, [Emit (EvStateChange (state c) newState)])"

text \<open>
  \<open>stop\<close>: stopping the microphone and the session does not raise, so the \<open>catch\<close> of
  the method is never entered.
\<close>

definition stop :: "SpeechRecognitionController \<Rightarrow> SpeechRecognitionController \<times> action list" where
  "stop c =
     (if state c = idle then (c, [LogWarn])
      else
        let (c1, out1) = setState idle c
        in (c1, [MicStop, SttStopSession] @ out1 @ [Emit EvStopped]))"

text \<open>
  \<open>handleError\<close> starts \<open>stop()\<close> without waiting for it; the model lets that call run
  to its end before anything else happens.
\<close>

definition handleError ::
  "js_error \<Rightarrow> SpeechRecognitionController \<Rightarrow> SpeechRecognitionController \<times> action list" where
  "handleError e c =
     (let (c1, out1) = setState error c;
          (c2, out2) = stop c1
      in (c2, out1 @ [Emit (EvError e)] @ out2))"

definition stopBackgroundListening ::
  "SpeechRecognitionController \<Rightarrow> SpeechRecognitionController \<times> action list" where
  "stopBackgroundListening c =
     (if \<not> backgroundListening c then (c, [])
      else
        let (c1, out1) = setState idle (c\<lparr>backgroundListening := False\<rparr>)
        in (c1, [MicStop, SttStopSession] @ out1 @ [Emit EvBackgroundListeningStopped]))"

text \<open>
  The \<open>catch\<close> of \<open>start\<close>: two error lines, \<open>handleError\<close>, and the exception raised
  again.
\<close>

definition start_failed ::
  "js_error \<Rightarrow> action list \<Rightarrow> SpeechRecognitionController
     \<Rightarrow> (js_error + unit) \<times> SpeechRecognitionController \<times> action list" where
  "start_failed e out c =
     (let (c1, out1) = handleError e c
      in (Inl e, c1, out @ [LogError, LogError] @ out1))"

text \<open>
  A session that fails to start emits its \<open>error\<close> event before it raises, so the
  controller's listener for that event runs before the \<open>catch\<close> of \<open>start\<close>: it
  writes an error line and calls \<open>handleError\<close>. The \<open>stop()\<close> of that call has
  finished when \<open>start\<close> goes on after its await of \<open>startSession()\<close>.
\<close>

definition sessionErrorListener ::
  "js_error \<Rightarrow> SpeechRecognitionController \<Rightarrow> SpeechRecognitionController \<times> action list" where
  "sessionErrorListener e c =
     (let (c1, out1) = handleError e c in (c1, LogError # out1))"

text \<open>
  \<open>stop()\<close> and \<open>handleError\<close> in two parts, up to the await of \<open>stopSession()\<close> and
  after it, for a controller that is not idle.
\<close>

definition handleError_begin ::
  "js_error \<Rightarrow> SpeechRecognitionController \<Rightarrow> SpeechRecognitionController \<times> action list" where
  "handleError_begin e c =
     (let (c1, out1) = setState error c
      in (c1, out1 @ [Emit (EvError e), MicStop, SttStopSession]))"

definition stop_finish ::
  "SpeechRecognitionController \<Rightarrow> SpeechRecognitionController \<times> action list" where
  "stop_finish c = (let (c1, out1) = setState idle c in (c1, out1 @ [Emit EvStopped]))"

text \<open>
  A microphone that fails to start emits its \<open>error\<close> event and raises inside the call
  \<open>microphoneManager.start()\<close>, which is not awaited. The controller's listener writes
  an error line. For a missing device (\<open>DeviceError\<close>) it writes two warnings, sets the
  state to \<open>idle\<close> and emits \<open>microphoneUnavailable\<close>; background listening has been
  stopped by then, so the listener's branch for it is not taken; the \<open>catch\<close> of
  \<open>start\<close> follows. For any other error the listener calls \<open>handleError\<close>, and the
  \<open>catch\<close> of \<open>start\<close> with its own \<open>handleError\<close> runs before either of the two
  \<open>stop()\<close> calls goes on after its await.
\<close>

definition start_microphone_failed ::
  "js_error \<Rightarrow> action list \<Rightarrow> SpeechRecognitionController
     \<Rightarrow> (js_error + unit) \<times> SpeechRecognitionController \<times> action list" where
  "start_microphone_failed e out c =
     (if e = DeviceError
      then (let (c1, out1) = setState idle c
            in start_failed e
                 (out @ [LogError, LogWarn, LogWarn] @ out1 @ [Emit EvMicrophoneUnavailable]) c1)
      else (let (c1, out1) = handleError_begin e c;
                (c2, out2) = handleError_begin e c1;
                (c3, out3) = stop_finish c2;
                (c4, out4) = stop_finish c3
            in (Inl e, c4,
                out @ [LogError] @ out1 @ [LogError, LogError] @ out2 @ out3 @ out4)))"

definition start ::
  "collaborators \<Rightarrow> SpeechRecognitionController
     \<Rightarrow> (js_error + unit) \<times> SpeechRecognitionController \<times> action list" where
  "start env c =
     (if state c = listening then (Inr (), c, [LogWarn])
      else if \<not> authenticated env
      then start_failed NotAuthenticated [LogError, Emit EvAuthenticationRequired] c
      else if \<not> hasPermission env
      then start_failed NotActivated [LogError, Emit (EvActivationRequired ''stt'')] c
      else if \<not> limitAllowed env
      then start_failed TokenLimit [LogError, Emit EvTokenLimitExceeded] c
      else
        let (c1, out1) = (if backgroundListening c then stopBackgroundListening c else (c, []));
            (c2, out2) = setState listening c1;
            c3 = c2\<lparr>lastInterimText := [], finalTextBuffer := []\<rparr>
        in case sttStart env of
             Some e \<Rightarrow>
               (let (c4, out4) = sessionErrorListener e c3
                in start_failed e (out1 @ out2 @ [SttStartSession] @ out4) c4)
           | None \<Rightarrow>
               (case micStart env of
                  Some e \<Rightarrow>
                    start_microphone_failed e (out1 @ out2 @ [SttStartSession, MicStart]) c3
                | None \<Rightarrow>
                    (Inr (), c3, out1 @ out2 @ [SttStartSession, MicStart, Emit EvStarted])))"

subsection \<open>A pass of the pipeline as a list of operations\<close>

text \<open>
  After its guards \<open>processFinalTranscription\<close> is a straight line of code whose
  branches depend on the transcript and on what the collaborators answer, not on the
  controller. The model writes it as the list of the operations on the controller, in the
  order of the source, with a mark \<open>Await\<close> wherever the source awaits: there the
  method is suspended and other code of the controller, also another pass, can run.

  \<^item> \<open>Type f\<close>: the lines that read the accumulator \<open>finalTextBuffer\<close>, put one space
    in front of the fragment \<open>f\<close> when it is not empty, keep the result in the local
    \<open>textToType\<close> and call \<open>typeText\<close> with it;
  \<^item> \<open>Append\<close>: the line \<open>this.finalTextBuffer += textToType\<close>;
  \<^item> \<open>Press k\<close>: the call \<open>executeCommand(k)\<close>;
  \<^item> \<open>Reset\<close>: the line \<open>this.finalTextBuffer = ''\<close>;
  \<^item> \<open>Signal e\<close>: the call \<open>this.emit\<close> for the event \<open>e\<close>;
  \<^item> \<open>ErrorLine\<close>: a \<open>console.error\<close> line.
\<close>

datatype op =
    Type string
  | Append
  | Press string
  | Reset
  | Signal ctrl_event
  | ErrorLine
  | Await

text \<open>One operation, on the local \<open>textToType\<close> of the pass and the controller.\<close>

fun perform ::
  "op \<Rightarrow> string \<times> SpeechRecognitionController
     \<Rightarrow> (string \<times> SpeechRecognitionController) \<times> action list" where
  "perform (Type fragment) (textToType, c) =
     (let t = (if finalTextBuffer c \<noteq> [] then CHR '' '' # fragment else fragment)
      in ((t, c), [TypeText t]))"
| "perform Append (textToType, c) =
     ((textToType, c\<lparr>finalTextBuffer := finalTextBuffer c @ textToType\<rparr>), [])"
| "perform (Press k) (textToType, c) = ((textToType, c), [ExecuteCommand k])"
| "perform Reset (textToType, c) = ((textToType, c\<lparr>finalTextBuffer := []\<rparr>), [])"
| "perform (Signal e) (textToType, c) = ((textToType, c), [Emit e])"
| "perform ErrorLine (textToType, c) = ((textToType, c), [LogError])"
| "perform Await (textToType, c) = ((textToType, c), [])"

text \<open>
  A list of operations run from its first to its last with nothing in between: a pass
  that is not interrupted at its awaits.
\<close>

fun runOps ::
  "op list \<Rightarrow> string \<times> SpeechRecognitionController
     \<Rightarrow> (string \<times> SpeechRecognitionController) \<times> action list" where
  "runOps [] s = (s, [])"
| "runOps (x # ops) s =
     (let (s1, out1) = perform x s;
          (s2, out2) = runOps ops s1
      in (s2, out1 @ out2))"

subsection \<open>Typing and commands\<close>

text \<open>
  The three places that type text share these lines: the text to type is made from the
  accumulator, \<open>typeText\<close> is awaited, and what has been typed is appended.
\<close>

definition typeFragment :: "string \<Rightarrow> op list" where
  "typeFragment fragment = [Type fragment, Await, Append]"

text \<open>
  The loop over \<open>analysis.commands\<close>: each command is executed and awaited, \<open>enter\<close>
  empties the accumulator, and a delay is awaited. \<open>executeCommand\<close> begins with
  \<open>command.includes('+')\<close>, which raises a TypeError for a command that is not a
  string; the \<open>await\<close> raises it in the loop. The second component tells whether the
  loop has raised.
\<close>

fun executeCommands :: "command list \<Rightarrow> op list \<times> bool" where
  "executeCommands [] = ([], False)"
| "executeCommands (Token k # rest) =
     (let (ops, raised) = executeCommands rest
      in ([Press k, Await] @
          (if k = ''enter'' \<or> toLowerCase k = ''enter'' then [Reset] else []) @
          [Await] @ ops, raised))"
| "executeCommands (other # rest) = ([Await], True)"

definition isToken :: "command \<Rightarrow> bool" where
  "isToken k = (case k of Token t \<Rightarrow> True | _ \<Rightarrow> False)"

text \<open>
  The branch taken when the agent is enabled, from the analysis on. \<open>writeCommandToLog\<close>
  writes an error line when it meets a command that is not a string. When the loop raises,
  the rest of the branch is skipped: the second component tells so.
\<close>

definition agentProcessing :: "IntentResult \<Rightarrow> string \<Rightarrow> op list \<times> bool" where
  "agentProcessing analysis text =
     (let ops1 = (if text' analysis \<noteq> [] \<and> trim (text' analysis) \<noteq> []
                  then typeFragment (text' analysis) else []);
          done = [Signal (EvText (if text' analysis \<noteq> [] then text' analysis else text))]
      in if commands analysis = [] then (ops1 @ done, False)
         else
           let logged = (if list_all isToken (commands analysis) then [] else [ErrorLine]);
               (ops2, raised) = executeCommands (commands analysis)
           in if raised then (ops1 @ logged @ ops2, True)
              else (ops1 @ logged @ ops2 @
                    [Signal (EvCommands (commands analysis) text)] @ done, False))"

text \<open>
  The fallback grammar. A command word is recognised at the end of the normalised text by
  the regular expression \<open>WORD\s*[.!?,;:]*$\<close>, with \<open>\b\<close> in front when the word has no
  space in it, under the \<open>i\<close> flag.
\<close>

definition commandWords :: "string list" where
  "commandWords =
     [''new line'', ''select all'', ''question mark'', ''exclamation mark'',
      ''exclamation point'', ''open parenthesis'', ''close parenthesis'', ''open bracket'',
      ''close bracket'', ''sent'', ''send'', ''enter'', ''return'', ''tab'', ''backspace'',
      ''delete'']"

definition is_punct :: "char \<Rightarrow> bool" where
  "is_punct c = (c \<in> set ''.!?,;:'')"

definition matchCommandAt :: "char option \<Rightarrow> string \<Rightarrow> string \<Rightarrow> bool" where
  "matchCommandAt prev s w =
     (length w \<le> length s \<and> eq_ci (take (length w) s) w \<and>
      (CHR '' '' \<in> set w \<or> is_boundary prev (head_opt s)) \<and>
      dropWhile is_punct (dropWhile is_space (drop (length w) s)) = [])"

fun regexCommandTest :: "char option \<Rightarrow> string \<Rightarrow> string \<Rightarrow> bool" where
  "regexCommandTest prev [] w = matchCommandAt prev [] w"
| "regexCommandTest prev (c # cs) w =
     (matchCommandAt prev (c # cs) w \<or> regexCommandTest (Some c) cs w)"

text \<open>
  The loop over \<open>commandWords\<close>: the first word that matches, is found by
  \<open>lastIndexOf\<close> and parses as a command gives the text in front of it and the parsed
  command. The index is found in the normalised text and applied to the text itself.
\<close>

fun findCommandWord ::
  "(string \<Rightarrow> parsed) \<Rightarrow> string \<Rightarrow> string \<Rightarrow> string list \<Rightarrow> (string \<times> parsed) option" where
  "findCommandWord prs text normalizedText [] = None"
| "findCommandWord prs text normalizedText (commandWord # rest) =
     (if regexCommandTest None normalizedText commandWord
      then (case lastIndexOf normalizedText (toLowerCase commandWord) of
              None \<Rightarrow> findCommandWord prs text normalizedText rest
            | Some commandIndex \<Rightarrow>
                let textBeforeCommand = trim (substring text 0 commandIndex);
                    commandParsed = prs commandWord
                in if isCommand commandParsed then Some (textBeforeCommand, commandParsed)
                   else findCommandWord prs text normalizedText rest)
      else findCommandWord prs text normalizedText rest)"

text \<open>
  Executing the command of the fallback grammar: the call is awaited and \<open>enter\<close>
  empties the accumulator. Typing the whole text is the end of the method, with its
  \<open>text\<close> event.
\<close>

definition executeParsed :: "string \<Rightarrow> op list" where
  "executeParsed v = [Press v, Await] @ (if v = ''enter'' then [Reset] else [])"

definition typePlain :: "string \<Rightarrow> op list" where
  "typePlain text = typeFragment text @ [Signal (EvText text)]"

text \<open>
  The part of the method headed "Standard processing": the whole text as a command, else
  a command word at its end, else plain text.
\<close>

definition standardPass :: "collaborators \<Rightarrow> string \<Rightarrow> op list" where
  "standardPass env text =
     (if voiceCommands env
      then
        let p = parse env text
        in if isCommand p
           then executeParsed (pvalue p) @ [Signal (EvCommand (pvalue p) (poriginalText p))]
           else
             (case findCommandWord (parse env) text (trim (toLowerCase text)) commandWords of
                Some (textBeforeCommand, commandParsed) \<Rightarrow>
                  (if textBeforeCommand \<noteq> [] then typeFragment textBeforeCommand else []) @
                  executeParsed (pvalue commandParsed) @
                  [Signal (EvCommand (pvalue commandParsed) text)]
              | None \<Rightarrow> typePlain text)
      else typePlain text)"

subsection \<open>processFinalTranscription\<close>

text \<open>
  The method in three parts. \<open>translate\<close> is the translation stage, awaited when the
  service is enabled: the text to go on with and the operations of the stage.
  \<open>pipelinePass\<close> is the method from the translation on: the agent's branch, after the
  awaited analysis, when the agent is enabled, and the standard processing otherwise or
  when that branch raises, after the two error lines of its \<open>catch\<close>.
  \<open>processFinalTranscription\<close> is the whole method: its guards, the trigger words, and
  the pipeline.
\<close>

definition translate :: "collaborators \<Rightarrow> string \<Rightarrow> string \<times> op list" where
  "translate env text =
     (case translationService env of
        None \<Rightarrow> (text, [])
      | Some TranslationFailed \<Rightarrow> (text, [Await, ErrorLine])
      | Some (Translated isEnglish translatedText detectedLanguage) \<Rightarrow>
          if isEnglish then (text, [Await])
          else (translatedText,
                [Await, Signal (EvTranslated text translatedText detectedLanguage)]))"

definition pipelinePass :: "collaborators \<Rightarrow> string \<Rightarrow> op list" where
  "pipelinePass env text0 =
     (let (text, ops0) = translate env text0;
          caught = [ErrorLine, ErrorLine] @ standardPass env text
      in ops0 @
         (if isEnabled (crewAIAgent env)
          then Await #
               (case analyze (crewAIAgent env) (jsonParse env) (agentReply env) text of
                  Inr analysis \<Rightarrow>
                    (let (ops, raised) = agentProcessing analysis text
                     in if raised then ops @ caught else ops)
                | Inl e \<Rightarrow> caught)
          else standardPass env text))"

text \<open>
  A pass that runs from its first operation to its last without another pass or method
  running at its awaits, on a controller.
\<close>

definition runPass ::
  "op list \<Rightarrow> SpeechRecognitionController \<Rightarrow> SpeechRecognitionController \<times> action list" where
  "runPass ops c = (let ((textToType, c1), out) = runOps ops ([], c) in (c1, out))"

definition standardProcessing ::
  "collaborators \<Rightarrow> string \<Rightarrow> SpeechRecognitionController
     \<Rightarrow> SpeechRecognitionController \<times> action list" where
  "standardProcessing env text c = runPass (standardPass env text) c"

definition pipeline ::
  "collaborators \<Rightarrow> string \<Rightarrow> SpeechRecognitionController
     \<Rightarrow> SpeechRecognitionController \<times> action list" where
  "pipeline env text c = runPass (pipelinePass env text) c"

definition processFinalTranscription ::
  "collaborators \<Rightarrow> string \<Rightarrow> bool \<Rightarrow> SpeechRecognitionController
     \<Rightarrow> (js_error + unit) \<times> SpeechRecognitionController \<times> action list" where
  "processFinalTranscription env text isFinal c =
     (if \<not> isFinal then (Inr (), c, [LogError, LogError])
      else if text = [] \<or> trim text = [] then (Inr (), c, [])
      else if state c = background_listening \<and> enabled (triggerWordDetector env)
      then (case detect (triggerWordDetector env) text of
              None \<Rightarrow> (Inr (), c, [])
            | Some triggerResult \<Rightarrow>
                if dtype triggerResult = activate
                then (let (c1, out1) = stopBackgroundListening c;
                          (r, c2, out2) = start env c1
                      in case r of
                           Inl e \<Rightarrow> (Inl e, c2, out1 @ out2)
                         | Inr u \<Rightarrow>
                             (Inr (), c2, out1 @ out2 @ [Emit (EvTriggerActivated triggerResult)]))
                else (let (c1, out1) = stop c
                      in (Inr (), c1, out1 @ [Emit (EvTriggerDeactivated triggerResult)])))
      else if state c = listening \<and> enabled (triggerWordDetector env) \<and>
              (case detect (triggerWordDetector env) text of
                 None \<Rightarrow> False
               | Some triggerResult \<Rightarrow> dtype triggerResult = deactivate)
      then (let (c1, out1) = stop c
            in (Inr (), c1,
                out1 @ [Emit (EvTriggerDeactivated (the (detect (triggerWordDetector env) text)))]))
      else (let (c1, out1) = pipeline env text c in (Inr (), c1, out1)))"

subsection \<open>Passes that overlap\<close>

text \<open>
  The controller starts a pass for every \<open>transcription\<close> event and does not wait for
  it, so a pass can begin while an earlier one is suspended at an await. A task is a pass
  under way: its local \<open>textToType\<close> and the operations it has still to do. A schedule
  names, one after the other, the task that runs next; that task runs to its next
  \<open>Await\<close>.
\<close>

fun segment :: "op list \<Rightarrow> op list \<times> op list" where
  "segment [] = ([], [])"
| "segment (Await # ops) = ([], ops)"
| "segment (x # ops) = (let (s, r) = segment ops in (x # s, r))"

fun interleave ::
  "nat list \<Rightarrow> (string \<times> op list) list \<Rightarrow> SpeechRecognitionController
     \<Rightarrow> SpeechRecognitionController \<times> action list" where
  "interleave [] tasks c = (c, [])"
| "interleave (i # schedule) tasks c =
     (if i < length tasks
      then
        let (textToType, todo) = tasks ! i;
            (now, later) = segment todo;
            ((textToType1, c1), out1) = runOps now (textToType, c);
            (c2, out2) = interleave schedule (tasks[i := (textToType1, later)]) c1
        in (c2, out1 @ out2)
      else interleave schedule tasks c)"

subsection \<open>Reading the controller's output\<close>

text \<open>
  The texts handed to \<open>typeText\<close>, the tokens handed to \<open>executeCommand\<close>, and the
  three signals of a failed precondition, each in the order of the output.
\<close>

definition typed :: "action list \<Rightarrow> string list" where
  "typed out = concat (map (\<lambda>a. case a of TypeText t \<Rightarrow> [t] | _ \<Rightarrow> []) out)"

definition executed :: "action list \<Rightarrow> string list" where
  "executed out = concat (map (\<lambda>a. case a of ExecuteCommand k \<Rightarrow> [k] | _ \<Rightarrow> []) out)"

definition signals :: "action list \<Rightarrow> ctrl_event list" where
  "signals out =
     concat (map (\<lambda>a. case a of
                          Emit EvAuthenticationRequired \<Rightarrow> [EvAuthenticationRequired]
                        | Emit (EvActivationRequired f) \<Rightarrow> [EvActivationRequired f]
                        | Emit EvTokenLimitExceeded \<Rightarrow> [EvTokenLimitExceeded]
                        | _ \<Rightarrow> []) out)"

text \<open>The controller as its constructor leaves it, without background listening.\<close>

definition newController :: SpeechRecognitionController where
  "newController =
     \<lparr>state = idle, backgroundListening = False, lastInterimText = [], finalTextBuffer = []\<rparr>"

text \<open>
  A dictation: the final transcripts of one listening episode, each with the answers its
  collaborators give at that time, where every pass of the pipeline has finished before
  the next transcript is handled. \<open>dictationOps\<close> is the list of its operations.
\<close>

fun dictate ::
  "(collaborators \<times> string) list \<Rightarrow> SpeechRecognitionController
     \<Rightarrow> SpeechRecognitionController \<times> action list" where
  "dictate [] c = (c, [])"
| "dictate ((env, text) # rest) c =
     (let (c1, out1) = pipeline env text c;
          (c2, out2) = dictate rest c1
      in (c2, out1 @ out2))"

definition dictationOps :: "(collaborators \<times> string) list \<Rightarrow> op list" where
  "dictationOps ps = concat (map (\<lambda>(env, text). pipelinePass env text) ps)"

text \<open>
  The fragments of a list of operations are the texts its passes set out to type, before
  any space is put in front; \<open>isType\<close> tells the operations that type.
\<close>

definition fragments :: "op list \<Rightarrow> string list" where
  "fragments ops = concat (map (\<lambda>x. case x of Type f \<Rightarrow> [f] | _ \<Rightarrow> []) ops)"

definition isType :: "op \<Rightarrow> bool" where
  "isType x = (case x of Type f \<Rightarrow> True | _ \<Rightarrow> False)"

subsection \<open>The spacing rule of the specification\<close>

text \<open>
  The rule as the specification words it, on the fragments and the commands of an episode
  in their order: a fragment is typed with exactly one space in front when text has been
  typed since the start of the episode or since the last \<open>enter\<close> command, and as it is
  otherwise. \<open>spacingRule dirty ops\<close> gives the texts typed and whether text has been
  typed since the last reset, where \<open>dirty\<close> tells whether it had been at the beginning.
\<close>

fun spacingRule :: "bool \<Rightarrow> op list \<Rightarrow> string list \<times> bool" where
  "spacingRule dirty [] = ([], dirty)"
| "spacingRule dirty (Type f # ops) =
     (let (ts, d) = spacingRule (dirty \<or> f \<noteq> []) ops
      in ((if dirty then CHR '' '' # f else f) # ts, d))"
| "spacingRule dirty (Press k # ops) = spacingRule (dirty \<and> k \<noteq> ''enter'') ops"
| "spacingRule dirty (Append # ops) = spacingRule dirty ops"
| "spacingRule dirty (Reset # ops) = spacingRule dirty ops"
| "spacingRule dirty (Signal e # ops) = spacingRule dirty ops"
| "spacingRule dirty (ErrorLine # ops) = spacingRule dirty ops"
| "spacingRule dirty (Await # ops) = spacingRule dirty ops"

text \<open>
  The shape of the operations of a pass: what is typed is appended after the await of
  \<open>typeText\<close>, and the accumulator is emptied after the await of an \<open>enter\<close> command
  and at no other place.
\<close>

inductive shaped :: "op list \<Rightarrow> bool" where
  shaped_Nil: "shaped []"
| shaped_Type: "shaped ops \<Longrightarrow> shaped (Type f # Await # Append # ops)"
| shaped_Enter: "shaped ops \<Longrightarrow> shaped (Press ''enter'' # Await # Reset # ops)"
| shaped_Press: "k \<noteq> ''enter'' \<Longrightarrow> shaped ops \<Longrightarrow> shaped (Press k # ops)"
| shaped_Signal: "shaped ops \<Longrightarrow> shaped (Signal e # ops)"
| shaped_ErrorLine: "shaped ops \<Longrightarrow> shaped (ErrorLine # ops)"
| shaped_Await: "shaped ops \<Longrightarrow> shaped (Await # ops)"

subsection \<open>A concrete command parser\<close>

text \<open>
  Modelled from the spec: \<open>CommandParser.parse\<close> is missing from the sources. This
  stand-in knows the phrases of the built-in command table and the words send, sent, enter
  and return, by exact match on the trimmed lower-case text; the fuzzy matching of the
  real parser is not modelled. It is the parser of the examples only: the theorems hold
  for every parser.
\<close>

definition commandTable :: "(string \<times> string) list" where
  "commandTable =
     [(''enter'', ''enter''), (''return'', ''enter''), (''sent'', ''enter''),
      (''send'', ''enter''), (''new line'', ''enter''), (''press enter'', ''enter''),
      (''tab'', ''tab''), (''press tab'', ''tab''), (''backspace'', ''backspace''),
      (''press backspace'', ''backspace''), (''delete'', ''backspace''),
      (''select all'', ''ctrl+a''), (''copy'', ''ctrl+c''), (''paste'', ''ctrl+v''),
      (''cut'', ''ctrl+x''), (''undo'', ''ctrl+z''), (''redo'', ''ctrl+y''),
      (''save'', ''ctrl+s'')]"

definition tableParser :: "string \<Rightarrow> parsed" where
  "tableParser text =
     (case map_of commandTable (trim (toLowerCase text)) of
        Some v \<Rightarrow> \<lparr>isCommand = True, pvalue = v, poriginalText = text\<rparr>
      | None \<Rightarrow> \<lparr>isCommand = False, pvalue = text, poriginalText = text\<rparr>)"

text \<open>
  Collaborators for the examples: an authenticated and entitled user within quota, the
  default trigger words, no translation, no agent, voice commands with the parser above.
\<close>

definition exampleCollaborators :: collaborators where
  "exampleCollaborators =
     \<lparr>authenticated = True, hasPermission = True, limitAllowed = True,
      sttStart = None, micStart = None,
      triggerWordDetector = \<lparr>triggerWord = ''sana'', deactivatePhrase = ''sana close'',
                               enabled = True, caseSensitive = False\<rparr>,
      translationService = None,
      crewAIAgent = \<lparr>agentEnabled = False, agentClient = False\<rparr>,
      jsonParse = (\<lambda>s. None), agentReply = ApiFailure,
      voiceCommands = True, parse = tableParser\<rparr>"

section \<open>Properties of createWavBuffer\<close>

lemma length_le_bytes [simp]: "length (le_bytes k v) = k"
  by (simp add: le_bytes_def)

lemma length_ascii [simp]: "length (ascii s) = length s"
  by (simp add: ascii_def)

lemma buf_write_append:
  "length pre = off \<Longrightarrow> length bs \<le> length rest \<Longrightarrow>
   buf_write (pre @ rest) bs off = pre @ bs @ drop (length bs) rest"
  by (simp add: buf_write_def)

lemma writeUIntLE_append:
  "v < 256 ^ k \<Longrightarrow> length pre = off \<Longrightarrow> k \<le> length rest \<Longrightarrow>
   writeUIntLE k (pre @ rest) v off = Inr (pre @ le_bytes k v @ drop k rest)"
  by (simp add: writeUIntLE_def buf_write_append)

lemma bindE_Inr [simp]: "bindE (Inr x) f = f x"
  by (simp add: bindE_def)

lemma createWavBuffer_success:
  assumes "length pcm + 36 < 2 ^ 32"
  shows "createWavBuffer pcm = Inr (wav_header (length pcm) @ pcm)"
proof -
  let ?n = "length pcm"
  let ?z = "\<lambda>k. replicate (k + ?n) (0::byte)"
  have n: "?n < 256 ^ 4" "36 + ?n < 256 ^ 4" using assms by simp_all
  have c: "16000 * 1 * (16 div 8) = (32000::nat)" "1 * (16 div 8) = (2::nat)" by simp_all
  let ?h1 = "ascii ''RIFF''"
  have b1: "buf_write (alloc (44 + ?n)) ?h1 0 = ?h1 @ ?z 40"
    using buf_write_append[of "[]" 0 ?h1 "alloc (44 + ?n)"] by (simp add: alloc_def)
  let ?h2 = "?h1 @ le_bytes 4 (36 + ?n)"
  have b2: "writeUInt32LE (?h1 @ ?z 40) (36 + ?n) 4 = Inr (?h2 @ ?z 36)"
    using writeUIntLE_append[OF n(2), of ?h1 4 "?z 40"] by (simp add: writeUInt32LE_def)
  let ?h3 = "?h2 @ ascii ''WAVE''"
  have b3: "buf_write (?h2 @ ?z 36) (ascii ''WAVE'') 8 = ?h3 @ ?z 32"
    using buf_write_append[of ?h2 8 "ascii ''WAVE''" "?z 36"] by simp
  let ?h4 = "?h3 @ ascii ''fmt ''"
  have b4: "buf_write (?h3 @ ?z 32) (ascii ''fmt '') 12 = ?h4 @ ?z 28"
    using buf_write_append[of ?h3 12 "ascii ''fmt ''" "?z 32"] by simp
  let ?h5 = "?h4 @ le_bytes 4 16"
  have b5: "writeUInt32LE (?h4 @ ?z 28) 16 16 = Inr (?h5 @ ?z 24)"
    using writeUIntLE_append[of 16 4 ?h4 16 "?z 28"] by (simp add: writeUInt32LE_def)
  let ?h6 = "?h5 @ le_bytes 2 1"
  have b6: "writeUInt16LE (?h5 @ ?z 24) 1 20 = Inr (?h6 @ ?z 22)"
    using writeUIntLE_append[of 1 2 ?h5 20 "?z 24"] by (simp add: writeUInt16LE_def)
  let ?h7 = "?h6 @ le_bytes 2 1"
  have b7: "writeUInt16LE (?h6 @ ?z 22) 1 22 = Inr (?h7 @ ?z 20)"
    using writeUIntLE_append[of 1 2 ?h6 22 "?z 22"] by (simp add: writeUInt16LE_def)
  let ?h8 = "?h7 @ le_bytes 4 16000"
  have b8: "writeUInt32LE (?h7 @ ?z 20) 16000 24 = Inr (?h8 @ ?z 16)"
    using writeUIntLE_append[of 16000 4 ?h7 24 "?z 20"] by (simp add: writeUInt32LE_def)
  let ?h9 = "?h8 @ le_bytes 4 32000"
  have b9: "writeUInt32LE (?h8 @ ?z 16) 32000 28 = Inr (?h9 @ ?z 12)"
    using writeUIntLE_append[of 32000 4 ?h8 28 "?z 16"] by (simp add: writeUInt32LE_def)
  let ?h10 = "?h9 @ le_bytes 2 2"
  have b10: "writeUInt16LE (?h9 @ ?z 12) 2 32 = Inr (?h10 @ ?z 10)"
    using writeUIntLE_append[of 2 2 ?h9 32 "?z 12"] by (simp add: writeUInt16LE_def)
  let ?h11 = "?h10 @ le_bytes 2 16"
  have b11: "writeUInt16LE (?h10 @ ?z 10) 16 34 = Inr (?h11 @ ?z 8)"
    using writeUIntLE_append[of 16 2 ?h10 34 "?z 10"] by (simp add: writeUInt16LE_def)
  let ?h12 = "?h11 @ ascii ''data''"
  have b12: "buf_write (?h11 @ ?z 8) (ascii ''data'') 36 = ?h12 @ ?z 4"
    using buf_write_append[of ?h11 36 "ascii ''data''" "?z 8"] by simp
  let ?h13 = "?h12 @ le_bytes 4 ?n"
  have b13: "writeUInt32LE (?h12 @ ?z 4) ?n 40 = Inr (?h13 @ ?z 0)"
    using writeUIntLE_append[OF n(1), of ?h12 40 "?z 4"] by (simp add: writeUInt32LE_def)
  have b14: "buf_write (?h13 @ ?z 0) pcm 44 = ?h13 @ pcm"
    using buf_write_append[of ?h13 44 pcm "?z 0"] by simp
  have h: "wav_header ?n = ?h13"
    by (simp add: wav_header_def)
  show ?thesis
    unfolding createWavBuffer_def Let_def
    by (simp only: c b1 b2 b3 b4 b5 b6 b7 b8 b9 b10 b11 b12 b13 b14 h bindE_Inr)
qed


lemma le_sum_digits:
  "(\<Sum>i\<leftarrow>[0..<k]. (v div 256 ^ i mod 256) * 256 ^ i) = (v::nat) mod 256 ^ k"
proof (induction k)
  case 0
  show ?case by simp
next
  case (Suc k)
  have "v mod 256 ^ Suc k = v mod (256 ^ k * 256)"
    by (simp only: power_Suc2)
  also have "\<dots> = 256 ^ k * (v div 256 ^ k mod 256) + v mod 256 ^ k"
    by (rule mod_mult2_eq)
  finally have step: "v mod 256 ^ Suc k = v mod 256 ^ k + (v div 256 ^ k mod 256) * 256 ^ k"
    by (simp only: add.commute mult.commute)
  have "(\<Sum>i\<leftarrow>[0..<Suc k]. (v div 256 ^ i mod 256) * 256 ^ i) =
        (\<Sum>i\<leftarrow>[0..<k]. (v div 256 ^ i mod 256) * 256 ^ i) + (v div 256 ^ k mod 256) * 256 ^ k"
    by simp
  with Suc step show ?case by (simp only:)
qed

lemma readUIntLE_field:
  assumes "take k (drop off wav) = le_bytes k v" and "v < 256 ^ k"
  shows "readUIntLE wav off k = v"
proof -
  have len: "off + k \<le> length wav" if "0 < k"
  proof -
    have "length (take k (drop off wav)) = k" using assms(1) by simp
    then show ?thesis using that by (auto simp: min_def split: if_splits)
  qed
  have "\<And>i. i < k \<Longrightarrow> wav ! (off + i) = of_nat (v div 256 ^ i mod 256)"
  proof -
    fix i assume i: "i < k"
    have "wav ! (off + i) = take k (drop off wav) ! i" using i len by simp
    also have "\<dots> = le_bytes k v ! i" by (simp add: assms(1))
    also have "\<dots> = of_nat (v div 256 ^ i mod 256)" using i by (simp add: le_bytes_def)
    finally show "wav ! (off + i) = of_nat (v div 256 ^ i mod 256)" .
  qed
  then have "readUIntLE wav off k = (\<Sum>i\<leftarrow>[0..<k]. (v div 256 ^ i mod 256) * 256 ^ i)"
    unfolding readUIntLE_def
    by (intro arg_cong[where f=sum_list] map_cong) (auto simp: unat_of_nat)
  then show ?thesis using assms(2) by (simp add: le_sum_digits)
qed

lemma length_wav_header [simp]: "length (wav_header n) = 44"
  by (simp add: wav_header_def)

text \<open>
  Claim C10, amended. For every PCM buffer of at most 4294967259 bytes, so that the RIFF
  chunk size 36 + length fits its 32-bit field, \<open>createWavBuffer\<close> returns a buffer of
  length input length + 44: the RIFF/WAVE header declaring PCM format 1, 1 channel,
  16000 Hz, 16 bits per sample and a data chunk of the input's length, followed by the
  input bytes unchanged.
\<close>

theorem createWavBuffer_wav:
  assumes "length pcmData \<le> 4294967259"
  shows "\<exists>wav. createWavBuffer pcmData = Inr wav \<and>
           length wav = length pcmData + 44 \<and>
           take 4 wav = ascii ''RIFF'' \<and>
           readUIntLE wav 4 4 = 36 + length pcmData \<and>
           take 4 (drop 8 wav) = ascii ''WAVE'' \<and>
           take 4 (drop 12 wav) = ascii ''fmt '' \<and>
           readUIntLE wav 16 4 = 16 \<and>
           readUIntLE wav 20 2 = 1 \<and>
           readUIntLE wav 22 2 = 1 \<and>
           readUIntLE wav 24 4 = 16000 \<and>
           readUIntLE wav 28 4 = 32000 \<and>
           readUIntLE wav 32 2 = 2 \<and>
           readUIntLE wav 34 2 = 16 \<and>
           take 4 (drop 36 wav) = ascii ''data'' \<and>
           readUIntLE wav 40 4 = length pcmData \<and>
           drop 44 wav = pcmData"
proof -
  let ?n = "length pcmData"
  let ?wav = "wav_header ?n @ pcmData"
  have n: "?n < 256 ^ 4" "36 + ?n < 256 ^ 4" using assms by simp_all
  have ok: "createWavBuffer pcmData = Inr ?wav"
    using assms by (intro createWavBuffer_success) simp
  have f1: "readUIntLE ?wav 4 4 = 36 + ?n"
    by (rule readUIntLE_field[OF _ n(2)]) (simp add: wav_header_def)
  have f2: "readUIntLE ?wav 16 4 = 16"
    by (rule readUIntLE_field) (simp_all add: wav_header_def)
  have f3: "readUIntLE ?wav 20 2 = 1"
    by (rule readUIntLE_field) (simp_all add: wav_header_def)
  have f4: "readUIntLE ?wav 22 2 = 1"
    by (rule readUIntLE_field) (simp_all add: wav_header_def)
  have f5: "readUIntLE ?wav 24 4 = 16000"
    by (rule readUIntLE_field) (simp_all add: wav_header_def)
  have f6: "readUIntLE ?wav 28 4 = 32000"
    by (rule readUIntLE_field) (simp_all add: wav_header_def)
  have f7: "readUIntLE ?wav 32 2 = 2"
    by (rule readUIntLE_field) (simp_all add: wav_header_def)
  have f8: "readUIntLE ?wav 34 2 = 16"
    by (rule readUIntLE_field) (simp_all add: wav_header_def)
  have f9: "readUIntLE ?wav 40 4 = ?n"
    by (rule readUIntLE_field[OF _ n(1)]) (simp add: wav_header_def)
  have t1: "take 4 ?wav = ascii ''RIFF''" by (simp add: wav_header_def)
  have t2: "take 4 (drop 8 ?wav) = ascii ''WAVE''" by (simp add: wav_header_def)
  have t3: "take 4 (drop 12 ?wav) = ascii ''fmt ''" by (simp add: wav_header_def)
  have t4: "take 4 (drop 36 ?wav) = ascii ''data''" by (simp add: wav_header_def)
  have d: "drop 44 ?wav = pcmData" by simp
  have l: "length ?wav = ?n + 44" by simp
  show ?thesis
    using ok l t1 f1 t2 t3 f2 f3 f4 f5 f6 f7 f8 t4 f9 d by blast
qed

text \<open>The theorem at a buffer of four bytes.\<close>

theorem createWavBuffer_wav_witness:
  "length [1, 2, 3, 4 :: byte] \<le> 4294967259 \<and>
   (\<exists>wav. createWavBuffer [1, 2, 3, 4] = Inr wav \<and> length wav = 48 \<and>
      readUIntLE wav 40 4 = 4 \<and> drop 44 wav = [1, 2, 3, 4])"
  using createWavBuffer_wav [of "[1, 2, 3, 4]"] by fastforce

text \<open>
  For a buffer of 4294967260 bytes the chunk size 36 + length is 4294967296, which
  \<open>writeUInt32LE\<close> rejects: the function raises instead of returning a buffer.
\<close>

theorem createWavBuffer_counterexample:
  "createWavBuffer (replicate 4294967260 0) = Inl RangeError"
  unfolding createWavBuffer_def Let_def alloc_def writeUInt32LE_def writeUIntLE_def bindE_def
  by (simp only: length_replicate) simp

section \<open>Character classes\<close>

text \<open>The character classes on the printable ASCII characters, for evaluating examples.\<close>

lemma toLowerChar_ascii:
  "toLowerChar CHR '' '' = CHR '' ''"
  "toLowerChar CHR ''!'' = CHR ''!''"
  "toLowerChar CHR ''#'' = CHR ''#''"
  "toLowerChar CHR ''$'' = CHR ''$''"
  "toLowerChar CHR ''%'' = CHR ''%''"
  "toLowerChar CHR ''&'' = CHR ''&''"
  "toLowerChar CHR ''('' = CHR ''(''"
  "toLowerChar CHR '')'' = CHR '')''"
  "toLowerChar CHR ''*'' = CHR ''*''"
  "toLowerChar CHR ''+'' = CHR ''+''"
  "toLowerChar CHR '','' = CHR '',''"
  "toLowerChar CHR ''-'' = CHR ''-''"
  "toLowerChar CHR ''.'' = CHR ''.''"
  "toLowerChar CHR ''/'' = CHR ''/''"
  "toLowerChar CHR ''0'' = CHR ''0''"
  "toLowerChar CHR ''1'' = CHR ''1''"
  "toLowerChar CHR ''2'' = CHR ''2''"
  "toLowerChar CHR ''3'' = CHR ''3''"
  "toLowerChar CHR ''4'' = CHR ''4''"
  "toLowerChar CHR ''5'' = CHR ''5''"
  "toLowerChar CHR ''6'' = CHR ''6''"
  "toLowerChar CHR ''7'' = CHR ''7''"
  "toLowerChar CHR ''8'' = CHR ''8''"
  "toLowerChar CHR ''9'' = CHR ''9''"
  "toLowerChar CHR '':'' = CHR '':''"
  "toLowerChar CHR '';'' = CHR '';''"
  "toLowerChar CHR ''<'' = CHR ''<''"
  "toLowerChar CHR ''='' = CHR ''=''"
  "toLowerChar CHR ''>'' = CHR ''>''"
  "toLowerChar CHR ''?'' = CHR ''?''"
  "toLowerChar CHR ''@'' = CHR ''@''"
  "toLowerChar CHR ''A'' = CHR ''a''"
  "toLowerChar CHR ''B'' = CHR ''b''"
  "toLowerChar CHR ''C'' = CHR ''c''"
  "toLowerChar CHR ''D'' = CHR ''d''"
  "toLowerChar CHR ''E'' = CHR ''e''"
  "toLowerChar CHR ''F'' = CHR ''f''"
  "toLowerChar CHR ''G'' = CHR ''g''"
  "toLowerChar CHR ''H'' = CHR ''h''"
  "toLowerChar CHR ''I'' = CHR ''i''"
  "toLowerChar CHR ''J'' = CHR ''j''"
  "toLowerChar CHR ''K'' = CHR ''k''"
  "toLowerChar CHR ''L'' = CHR ''l''"
  "toLowerChar CHR ''M'' = CHR ''m''"
  "toLowerChar CHR ''N'' = CHR ''n''"
  "toLowerChar CHR ''O'' = CHR ''o''"
  "toLowerChar CHR ''P'' = CHR ''p''"
  "toLowerChar CHR ''Q'' = CHR ''q''"
  "toLowerChar CHR ''R'' = CHR ''r''"
  "toLowerChar CHR ''S'' = CHR ''s''"
  "toLowerChar CHR ''T'' = CHR ''t''"
  "toLowerChar CHR ''U'' = CHR ''u''"
  "toLowerChar CHR ''V'' = CHR ''v''"
  "toLowerChar CHR ''W'' = CHR ''w''"
  "toLowerChar CHR ''X'' = CHR ''x''"
  "toLowerChar CHR ''Y'' = CHR ''y''"
  "toLowerChar CHR ''Z'' = CHR ''z''"
  "toLowerChar CHR ''['' = CHR ''[''"
  "toLowerChar CHR '']'' = CHR '']''"
  "toLowerChar CHR ''^'' = CHR ''^''"
  "toLowerChar CHR ''_'' = CHR ''_''"
  "toLowerChar CHR ''a'' = CHR ''a''"
  "toLowerChar CHR ''b'' = CHR ''b''"
  "toLowerChar CHR ''c'' = CHR ''c''"
  "toLowerChar CHR ''d'' = CHR ''d''"
  "toLowerChar CHR ''e'' = CHR ''e''"
  "toLowerChar CHR ''f'' = CHR ''f''"
  "toLowerChar CHR ''g'' = CHR ''g''"
  "toLowerChar CHR ''h'' = CHR ''h''"
  "toLowerChar CHR ''i'' = CHR ''i''"
  "toLowerChar CHR ''j'' = CHR ''j''"
  "toLowerChar CHR ''k'' = CHR ''k''"
  "toLowerChar CHR ''l'' = CHR ''l''"
  "toLowerChar CHR ''m'' = CHR ''m''"
  "toLowerChar CHR ''n'' = CHR ''n''"
  "toLowerChar CHR ''o'' = CHR ''o''"
  "toLowerChar CHR ''p'' = CHR ''p''"
  "toLowerChar CHR ''q'' = CHR ''q''"
  "toLowerChar CHR ''r'' = CHR ''r''"
  "toLowerChar CHR ''s'' = CHR ''s''"
  "toLowerChar CHR ''t'' = CHR ''t''"
  "toLowerChar CHR ''u'' = CHR ''u''"
  "toLowerChar CHR ''v'' = CHR ''v''"
  "toLowerChar CHR ''w'' = CHR ''w''"
  "toLowerChar CHR ''x'' = CHR ''x''"
  "toLowerChar CHR ''y'' = CHR ''y''"
  "toLowerChar CHR ''z'' = CHR ''z''"
  "toLowerChar CHR ''{'' = CHR ''{''"
  "toLowerChar CHR ''|'' = CHR ''|''"
  "toLowerChar CHR ''}'' = CHR ''}''"
  "toLowerChar CHR ''~'' = CHR ''~''"
  by code_simp+

lemma is_space_ascii:
  "is_space CHR '' ''"
  "\<not> is_space CHR ''!''"
  "\<not> is_space CHR ''#''"
  "\<not> is_space CHR ''$''"
  "\<not> is_space CHR ''%''"
  "\<not> is_space CHR ''&''"
  "\<not> is_space CHR ''(''"
  "\<not> is_space CHR '')''"
  "\<not> is_space CHR ''*''"
  "\<not> is_space CHR ''+''"
  "\<not> is_space CHR '',''"
  "\<not> is_space CHR ''-''"
  "\<not> is_space CHR ''.''"
  "\<not> is_space CHR ''/''"
  "\<not> is_space CHR ''0''"
  "\<not> is_space CHR ''1''"
  "\<not> is_space CHR ''2''"
  "\<not> is_space CHR ''3''"
  "\<not> is_space CHR ''4''"
  "\<not> is_space CHR ''5''"
  "\<not> is_space CHR ''6''"
  "\<not> is_space CHR ''7''"
  "\<not> is_space CHR ''8''"
  "\<not> is_space CHR ''9''"
  "\<not> is_space CHR '':''"
  "\<not> is_space CHR '';''"
  "\<not> is_space CHR ''<''"
  "\<not> is_space CHR ''=''"
  "\<not> is_space CHR ''>''"
  "\<not> is_space CHR ''?''"
  "\<not> is_space CHR ''@''"
  "\<not> is_space CHR ''A''"
  "\<not> is_space CHR ''B''"
  "\<not> is_space CHR ''C''"
  "\<not> is_space CHR ''D''"
  "\<not> is_space CHR ''E''"
  "\<not> is_space CHR ''F''"
  "\<not> is_space CHR ''G''"
  "\<not> is_space CHR ''H''"
  "\<not> is_space CHR ''I''"
  "\<not> is_space CHR ''J''"
  "\<not> is_space CHR ''K''"
  "\<not> is_space CHR ''L''"
  "\<not> is_space CHR ''M''"
  "\<not> is_space CHR ''N''"
  "\<not> is_space CHR ''O''"
  "\<not> is_space CHR ''P''"
  "\<not> is_space CHR ''Q''"
  "\<not> is_space CHR ''R''"
  "\<not> is_space CHR ''S''"
  "\<not> is_space CHR ''T''"
  "\<not> is_space CHR ''U''"
  "\<not> is_space CHR ''V''"
  "\<not> is_space CHR ''W''"
  "\<not> is_space CHR ''X''"
  "\<not> is_space CHR ''Y''"
  "\<not> is_space CHR ''Z''"
  "\<not> is_space CHR ''[''"
  "\<not> is_space CHR '']''"
  "\<not> is_space CHR ''^''"
  "\<not> is_space CHR ''_''"
  "\<not> is_space CHR ''a''"
  "\<not> is_space CHR ''b''"
  "\<not> is_space CHR ''c''"
  "\<not> is_space CHR ''d''"
  "\<not> is_space CHR ''e''"
  "\<not> is_space CHR ''f''"
  "\<not> is_space CHR ''g''"
  "\<not> is_space CHR ''h''"
  "\<not> is_space CHR ''i''"
  "\<not> is_space CHR ''j''"
  "\<not> is_space CHR ''k''"
  "\<not> is_space CHR ''l''"
  "\<not> is_space CHR ''m''"
  "\<not> is_space CHR ''n''"
  "\<not> is_space CHR ''o''"
  "\<not> is_space CHR ''p''"
  "\<not> is_space CHR ''q''"
  "\<not> is_space CHR ''r''"
  "\<not> is_space CHR ''s''"
  "\<not> is_space CHR ''t''"
  "\<not> is_space CHR ''u''"
  "\<not> is_space CHR ''v''"
  "\<not> is_space CHR ''w''"
  "\<not> is_space CHR ''x''"
  "\<not> is_space CHR ''y''"
  "\<not> is_space CHR ''z''"
  "\<not> is_space CHR ''{''"
  "\<not> is_space CHR ''|''"
  "\<not> is_space CHR ''}''"
  "\<not> is_space CHR ''~''"
  by (simp_all add: is_space_def)

lemma is_word_char_ascii:
  "\<not> is_word_char CHR '' ''"
  "\<not> is_word_char CHR ''!''"
  "\<not> is_word_char CHR ''#''"
  "\<not> is_word_char CHR ''$''"
  "\<not> is_word_char CHR ''%''"
  "\<not> is_word_char CHR ''&''"
  "\<not> is_word_char CHR ''(''"
  "\<not> is_word_char CHR '')''"
  "\<not> is_word_char CHR ''*''"
  "\<not> is_word_char CHR ''+''"
  "\<not> is_word_char CHR '',''"
  "\<not> is_word_char CHR ''-''"
  "\<not> is_word_char CHR ''.''"
  "\<not> is_word_char CHR ''/''"
  "is_word_char CHR ''0''"
  "is_word_char CHR ''1''"
  "is_word_char CHR ''2''"
  "is_word_char CHR ''3''"
  "is_word_char CHR ''4''"
  "is_word_char CHR ''5''"
  "is_word_char CHR ''6''"
  "is_word_char CHR ''7''"
  "is_word_char CHR ''8''"
  "is_word_char CHR ''9''"
  "\<not> is_word_char CHR '':''"
  "\<not> is_word_char CHR '';''"
  "\<not> is_word_char CHR ''<''"
  "\<not> is_word_char CHR ''=''"
  "\<not> is_word_char CHR ''>''"
  "\<not> is_word_char CHR ''?''"
  "\<not> is_word_char CHR ''@''"
  "is_word_char CHR ''A''"
  "is_word_char CHR ''B''"
  "is_word_char CHR ''C''"
  "is_word_char CHR ''D''"
  "is_word_char CHR ''E''"
  "is_word_char CHR ''F''"
  "is_word_char CHR ''G''"
  "is_word_char CHR ''H''"
  "is_word_char CHR ''I''"
  "is_word_char CHR ''J''"
  "is_word_char CHR ''K''"
  "is_word_char CHR ''L''"
  "is_word_char CHR ''M''"
  "is_word_char CHR ''N''"
  "is_word_char CHR ''O''"
  "is_word_char CHR ''P''"
  "is_word_char CHR ''Q''"
  "is_word_char CHR ''R''"
  "is_word_char CHR ''S''"
  "is_word_char CHR ''T''"
  "is_word_char CHR ''U''"
  "is_word_char CHR ''V''"
  "is_word_char CHR ''W''"
  "is_word_char CHR ''X''"
  "is_word_char CHR ''Y''"
  "is_word_char CHR ''Z''"
  "\<not> is_word_char CHR ''[''"
  "\<not> is_word_char CHR '']''"
  "\<not> is_word_char CHR ''^''"
  "is_word_char CHR ''_''"
  "is_word_char CHR ''a''"
  "is_word_char CHR ''b''"
  "is_word_char CHR ''c''"
  "is_word_char CHR ''d''"
  "is_word_char CHR ''e''"
  "is_word_char CHR ''f''"
  "is_word_char CHR ''g''"
  "is_word_char CHR ''h''"
  "is_word_char CHR ''i''"
  "is_word_char CHR ''j''"
  "is_word_char CHR ''k''"
  "is_word_char CHR ''l''"
  "is_word_char CHR ''m''"
  "is_word_char CHR ''n''"
  "is_word_char CHR ''o''"
  "is_word_char CHR ''p''"
  "is_word_char CHR ''q''"
  "is_word_char CHR ''r''"
  "is_word_char CHR ''s''"
  "is_word_char CHR ''t''"
  "is_word_char CHR ''u''"
  "is_word_char CHR ''v''"
  "is_word_char CHR ''w''"
  "is_word_char CHR ''x''"
  "is_word_char CHR ''y''"
  "is_word_char CHR ''z''"
  "\<not> is_word_char CHR ''{''"
  "\<not> is_word_char CHR ''|''"
  "\<not> is_word_char CHR ''}''"
  "\<not> is_word_char CHR ''~''"
  by (simp_all add: is_word_char_def)

lemma is_punct_ascii:
  "\<not> is_punct CHR '' ''"
  "is_punct CHR ''!''"
  "\<not> is_punct CHR ''#''"
  "\<not> is_punct CHR ''$''"
  "\<not> is_punct CHR ''%''"
  "\<not> is_punct CHR ''&''"
  "\<not> is_punct CHR ''(''"
  "\<not> is_punct CHR '')''"
  "\<not> is_punct CHR ''*''"
  "\<not> is_punct CHR ''+''"
  "is_punct CHR '',''"
  "\<not> is_punct CHR ''-''"
  "is_punct CHR ''.''"
  "\<not> is_punct CHR ''/''"
  "\<not> is_punct CHR ''0''"
  "\<not> is_punct CHR ''1''"
  "\<not> is_punct CHR ''2''"
  "\<not> is_punct CHR ''3''"
  "\<not> is_punct CHR ''4''"
  "\<not> is_punct CHR ''5''"
  "\<not> is_punct CHR ''6''"
  "\<not> is_punct CHR ''7''"
  "\<not> is_punct CHR ''8''"
  "\<not> is_punct CHR ''9''"
  "is_punct CHR '':''"
  "is_punct CHR '';''"
  "\<not> is_punct CHR ''<''"
  "\<not> is_punct CHR ''=''"
  "\<not> is_punct CHR ''>''"
  "is_punct CHR ''?''"
  "\<not> is_punct CHR ''@''"
  "\<not> is_punct CHR ''A''"
  "\<not> is_punct CHR ''B''"
  "\<not> is_punct CHR ''C''"
  "\<not> is_punct CHR ''D''"
  "\<not> is_punct CHR ''E''"
  "\<not> is_punct CHR ''F''"
  "\<not> is_punct CHR ''G''"
  "\<not> is_punct CHR ''H''"
  "\<not> is_punct CHR ''I''"
  "\<not> is_punct CHR ''J''"
  "\<not> is_punct CHR ''K''"
  "\<not> is_punct CHR ''L''"
  "\<not> is_punct CHR ''M''"
  "\<not> is_punct CHR ''N''"
  "\<not> is_punct CHR ''O''"
  "\<not> is_punct CHR ''P''"
  "\<not> is_punct CHR ''Q''"
  "\<not> is_punct CHR ''R''"
  "\<not> is_punct CHR ''S''"
  "\<not> is_punct CHR ''T''"
  "\<not> is_punct CHR ''U''"
  "\<not> is_punct CHR ''V''"
  "\<not> is_punct CHR ''W''"
  "\<not> is_punct CHR ''X''"
  "\<not> is_punct CHR ''Y''"
  "\<not> is_punct CHR ''Z''"
  "\<not> is_punct CHR ''[''"
  "\<not> is_punct CHR '']''"
  "\<not> is_punct CHR ''^''"
  "\<not> is_punct CHR ''_''"
  "\<not> is_punct CHR ''a''"
  "\<not> is_punct CHR ''b''"
  "\<not> is_punct CHR ''c''"
  "\<not> is_punct CHR ''d''"
  "\<not> is_punct CHR ''e''"
  "\<not> is_punct CHR ''f''"
  "\<not> is_punct CHR ''g''"
  "\<not> is_punct CHR ''h''"
  "\<not> is_punct CHR ''i''"
  "\<not> is_punct CHR ''j''"
  "\<not> is_punct CHR ''k''"
  "\<not> is_punct CHR ''l''"
  "\<not> is_punct CHR ''m''"
  "\<not> is_punct CHR ''n''"
  "\<not> is_punct CHR ''o''"
  "\<not> is_punct CHR ''p''"
  "\<not> is_punct CHR ''q''"
  "\<not> is_punct CHR ''r''"
  "\<not> is_punct CHR ''s''"
  "\<not> is_punct CHR ''t''"
  "\<not> is_punct CHR ''u''"
  "\<not> is_punct CHR ''v''"
  "\<not> is_punct CHR ''w''"
  "\<not> is_punct CHR ''x''"
  "\<not> is_punct CHR ''y''"
  "\<not> is_punct CHR ''z''"
  "\<not> is_punct CHR ''{''"
  "\<not> is_punct CHR ''|''"
  "\<not> is_punct CHR ''}''"
  "\<not> is_punct CHR ''~''"
  by (simp_all add: is_punct_def)

lemmas char_classes = toLowerChar_ascii is_space_ascii is_word_char_ascii is_punct_ascii

section \<open>Properties of the trigger word detector\<close>

lemma startsWith_iff: "startsWith s p \<longleftrightarrow> (\<exists>post. s = p @ post)"
  by (induction s p rule: startsWith.induct) auto

lemma includes_str_iff: "includes_str s p \<longleftrightarrow> (\<exists>pre post. s = pre @ p @ post)"
proof (induction s)
  case Nil
  show ?case by (cases p) auto
next
  case (Cons c cs)
  show ?case
  proof
    assume "includes_str (c # cs) p"
    then consider "startsWith (c # cs) p" | "includes_str cs p" by auto
    then show "\<exists>pre post. c # cs = pre @ p @ post"
    proof cases
      case 1
      then obtain post where "c # cs = p @ post" by (auto simp: startsWith_iff)
      then have "c # cs = [] @ p @ post" by simp
      then show ?thesis by blast
    next
      case 2
      then obtain pre post where "cs = pre @ p @ post" using Cons.IH by blast
      then have "c # cs = (c # pre) @ p @ post" by simp
      then show ?thesis by blast
    qed
  next
    assume "\<exists>pre post. c # cs = pre @ p @ post"
    then obtain pre post where eq: "c # cs = pre @ p @ post" by blast
    show "includes_str (c # cs) p"
    proof (cases pre)
      case Nil
      then have "startsWith (c # cs) p" using eq by (auto simp: startsWith_iff)
      then show ?thesis by simp
    next
      case (Cons a pre')
      then have "cs = pre' @ p @ post" using eq by simp
      then have "includes_str cs p" using Cons.IH by blast
      then show ?thesis by simp
    qed
  qed
qed

lemma eq_ci_length: "eq_ci a b \<Longrightarrow> length a = length b"
  unfolding eq_ci_def toLowerCase_def by (rule map_eq_imp_length_eq)

lemma matchWordAt_iff:
  "matchWordAt prev s w \<longleftrightarrow>
   (\<exists>mid post. s = mid @ post \<and> eq_ci mid w \<and> is_boundary prev (head_opt (mid @ post)) \<and>
      is_boundary (last_opt prev mid) (head_opt post))"
proof
  assume m: "matchWordAt prev s w"
  let ?mid = "take (length w) s" and ?post = "drop (length w) s"
  have "s = ?mid @ ?post" by simp
  moreover have "eq_ci ?mid w" "is_boundary prev (head_opt (?mid @ ?post))"
    "is_boundary (last_opt prev ?mid) (head_opt ?post)"
    using m by (simp_all add: matchWordAt_def)
  ultimately show "\<exists>mid post. s = mid @ post \<and> eq_ci mid w \<and>
      is_boundary prev (head_opt (mid @ post)) \<and> is_boundary (last_opt prev mid) (head_opt post)"
    by blast
next
  assume "\<exists>mid post. s = mid @ post \<and> eq_ci mid w \<and> is_boundary prev (head_opt (mid @ post)) \<and>
      is_boundary (last_opt prev mid) (head_opt post)"
  then obtain mid post where s: "s = mid @ post" and e: "eq_ci mid w"
    and b1: "is_boundary prev (head_opt (mid @ post))"
    and b2: "is_boundary (last_opt prev mid) (head_opt post)" by blast
  have l: "length mid = length w" using e by (rule eq_ci_length)
  show "matchWordAt prev s w"
    using e b1 b2 l by (simp add: matchWordAt_def s)
qed

lemma last_opt_Cons: "last_opt prev (c # xs) = last_opt (Some c) xs"
  by (simp add: last_opt_def)

lemma regexWordTest_iff:
  "regexWordTest prev s w \<longleftrightarrow>
   (\<exists>pre mid post. s = pre @ mid @ post \<and> eq_ci mid w \<and>
      is_boundary (last_opt prev pre) (head_opt (mid @ post)) \<and>
      is_boundary (last_opt prev (pre @ mid)) (head_opt post))"
proof (induction s arbitrary: prev)
  case Nil
  have "matchWordAt prev [] w \<longleftrightarrow>
        (eq_ci [] w \<and> is_boundary prev (head_opt []) \<and> is_boundary (last_opt prev []) (head_opt []))"
    by (auto simp: matchWordAt_def dest: eq_ci_length)
  then show ?case by (simp add: last_opt_def)
next
  case (Cons c cs)
  show ?case
  proof
    assume "regexWordTest prev (c # cs) w"
    then consider "matchWordAt prev (c # cs) w" | "regexWordTest (Some c) cs w" by auto
    then show "\<exists>pre mid post. c # cs = pre @ mid @ post \<and> eq_ci mid w \<and>
      is_boundary (last_opt prev pre) (head_opt (mid @ post)) \<and>
      is_boundary (last_opt prev (pre @ mid)) (head_opt post)"
    proof cases
      case 1
      then obtain mid post where m: "c # cs = mid @ post" "eq_ci mid w"
        "is_boundary prev (head_opt (mid @ post))"
        "is_boundary (last_opt prev mid) (head_opt post)"
        using matchWordAt_iff [of prev "c # cs" w] by blast
      then have "c # cs = [] @ mid @ post" "eq_ci mid w"
        "is_boundary (last_opt prev []) (head_opt (mid @ post))"
        "is_boundary (last_opt prev ([] @ mid)) (head_opt post)"
        by (simp_all add: last_opt_def)
      then show ?thesis by blast
    next
      case 2
      then obtain pre mid post where "cs = pre @ mid @ post" "eq_ci mid w"
        "is_boundary (last_opt (Some c) pre) (head_opt (mid @ post))"
        "is_boundary (last_opt (Some c) (pre @ mid)) (head_opt post)"
        using Cons.IH by blast
      then have "c # cs = (c # pre) @ mid @ post" "eq_ci mid w"
        "is_boundary (last_opt prev (c # pre)) (head_opt (mid @ post))"
        "is_boundary (last_opt prev ((c # pre) @ mid)) (head_opt post)"
        by (simp_all add: last_opt_Cons)
      then show ?thesis by blast
    qed
  next
    assume "\<exists>pre mid post. c # cs = pre @ mid @ post \<and> eq_ci mid w \<and>
      is_boundary (last_opt prev pre) (head_opt (mid @ post)) \<and>
      is_boundary (last_opt prev (pre @ mid)) (head_opt post)"
    then obtain pre mid post where eq: "c # cs = pre @ mid @ post" and e: "eq_ci mid w"
      and b1: "is_boundary (last_opt prev pre) (head_opt (mid @ post))"
      and b2: "is_boundary (last_opt prev (pre @ mid)) (head_opt post)" by blast
    show "regexWordTest prev (c # cs) w"
    proof (cases pre)
      case Nil
      have "c # cs = mid @ post" using eq Nil by simp
      moreover have "is_boundary prev (head_opt (mid @ post))"
        "is_boundary (last_opt prev mid) (head_opt post)"
        using b1 b2 Nil by (simp_all add: last_opt_def)
      ultimately have "matchWordAt prev (c # cs) w"
        using e matchWordAt_iff [of prev "c # cs" w] by blast
      then show ?thesis by simp
    next
      case (Cons a pre')
      then have "cs = pre' @ mid @ post" "a = c" using eq by simp_all
      moreover have "is_boundary (last_opt (Some c) pre') (head_opt (mid @ post))"
        "is_boundary (last_opt (Some c) (pre' @ mid)) (head_opt post)"
        using b1 b2 Cons \<open>a = c\<close> by (simp_all add: last_opt_Cons)
      ultimately have "regexWordTest (Some c) cs w" using e Cons.IH by blast
      then show ?thesis by simp
    qed
  qed
qed

text \<open>
  Claim C4. For an enabled detector and a non-empty text, \<open>detect\<close> first tests whether
  the normalised text contains the normalised deactivate phrase as a substring and answers
  \<open>deactivate\<close> if it does, whether or not the activate word occurs as well; only
  otherwise it tests the activate word between word boundaries and answers
  \<open>activate\<close>; otherwise it answers null.
\<close>

theorem detect_deactivate_first:
  "enabled d \<Longrightarrow> text \<noteq> [] \<Longrightarrow>
   (let N = (\<lambda>s. if caseSensitive d then s else toLowerCase s);
        T = N (trim text);
        has_phrase = (\<exists>pre post. T = pre @ N (deactivatePhrase d) @ post);
        has_word = (\<exists>pre mid post. T = pre @ mid @ post \<and> eq_ci mid (N (triggerWord d)) \<and>
                      is_boundary (last_opt None pre) (head_opt (mid @ post)) \<and>
                      is_boundary (last_opt None (pre @ mid)) (head_opt post))
    in detect d text =
         (if has_phrase
          then Some \<lparr>dtype = deactivate, matched = deactivatePhrase d,
                      originalText = text, confidence = 1\<rparr>
          else if has_word
          then Some \<lparr>dtype = activate, matched = triggerWord d,
                      originalText = text, confidence = 1\<rparr>
          else None))"
  unfolding detect_def Let_def containsPhrase_def containsWord_def
    includes_str_iff regexWordTest_iff
  by (cases "caseSensitive d") simp_all

text \<open>
  With activate word "sana" and deactivate phrase "sana close", the text
  "sana close the app" is a deactivation.
\<close>

theorem detect_deactivate_first_witness:
  "enabled \<lparr>triggerWord = ''sana'', deactivatePhrase = ''sana close'', enabled = True,
            caseSensitive = False\<rparr> \<and>
   ''sana close the app'' \<noteq> [] \<and>
   detect \<lparr>triggerWord = ''sana'', deactivatePhrase = ''sana close'', enabled = True,
            caseSensitive = False\<rparr> ''sana close the app''
     = Some \<lparr>dtype = deactivate, matched = ''sana close'',
              originalText = ''sana close the app'', confidence = 1\<rparr>"
proof -
  let ?d = "\<lparr>triggerWord = ''sana'', deactivatePhrase = ''sana close'', enabled = True,
            caseSensitive = False\<rparr>"
  have p: "toLowerCase (trim ''sana close the app'') = [] @ toLowerCase ''sana close'' @ '' the app''"
    by (simp add: toLowerCase_def toLowerChar_def trim_def is_space_def)
  have "\<exists>pre post. toLowerCase (trim ''sana close the app'') = pre @ toLowerCase ''sana close'' @ post"
    using p by blast
  then show ?thesis
    using detect_deactivate_first [of ?d "''sana close the app''"]
    by (simp add: Let_def)
qed

section \<open>Properties of the transcription session\<close>

lemmas session_defs = new_GroqSTTClient_def initialize_def startSession_def processBuffer_begin_def
  processBuffer_resume_def sendAudio_def stopSession_finish_def stopSession_begin_def
  step_def exec_def fresh_def requests_def

lemma createWavBuffer_length:
  "length pcm = n \<Longrightarrow> n + 36 < 2 ^ 32 \<Longrightarrow> createWavBuffer pcm = Inr (wav_header n @ pcm)"
  using createWavBuffer_success [of pcm] by simp

lemma wav_small: "createWavBuffer [1, 2] = Inr (wav_header 2 @ [1, 2])"
  by (rule createWavBuffer_length) simp_all

lemma wav_small': "createWavBuffer [3, 4] = Inr (wav_header 2 @ [3, 4])"
  by (rule createWavBuffer_length) simp_all

lemma sendAudio_in_flight:
  "isConnected s \<Longrightarrow> isProcessing s \<Longrightarrow>
   sendAudio audioData now s =
     (audioData \<noteq> [],
      (if audioData = [] then s else s\<lparr>audioBuffer := audioBuffer s @ [audioData]\<rparr>), [], False)"
  by (simp add: sendAudio_def)

lemma sendAll_in_flight:
  "isConnected s \<Longrightarrow> isProcessing s \<Longrightarrow>
   sendAll chunks (s, out) =
     (s\<lparr>audioBuffer := audioBuffer s @ filter (\<lambda>a. a \<noteq> []) (map fst chunks)\<rparr>, out)"
proof (induction chunks arbitrary: s)
  case Nil
  show ?case by (simp add: sendAll_def)
next
  case (Cons x xs)
  obtain a t where x: "x = (a, t)" by (cases x)
  let ?s = "if a = [] then s else s\<lparr>audioBuffer := audioBuffer s @ [a]\<rparr>"
  have c: "isConnected ?s" "isProcessing ?s" using Cons.prems by simp_all
  have "sendAll (x # xs) (s, out) = sendAll xs (?s, out)"
    using Cons.prems by (simp add: sendAll_def x sendAudio_in_flight)
  also have "\<dots> = (?s\<lparr>audioBuffer := audioBuffer ?s @ filter (\<lambda>a. a \<noteq> []) (map fst xs)\<rparr>, out)"
    by (rule Cons.IH [OF c])
  finally show ?case by (simp add: x)
qed

lemma processBuffer_begin_cases:
  "processBuffer_begin now s = (s', out, waiting) \<Longrightarrow>
   isConnected s' = isConnected s \<and> length (requests out) \<le> 1 \<and> EmitClose \<notin> set out \<and>
   (waiting \<longrightarrow> isProcessing s' \<and> audioBuffer s' = [])"
  by (auto simp: processBuffer_begin_def requests_def Let_def split: if_splits sum.splits)

lemma processBuffer_resume_out:
  "processBuffer_resume rep s = (s', out) \<Longrightarrow>
   requests out = [] \<and> EmitClose \<notin> set out \<and> isConnected s' = isConnected s"
  by (auto simp: processBuffer_resume_def requests_def split: reply.splits if_splits option.splits)

lemma requests_append: "requests (a @ b) = requests a @ requests b"
  by (simp add: requests_def)

lemma requests_close: "requests [EmitClose] = []"
  by (simp add: requests_def)

text \<open>
  Claim C8. On a connected session, two awaited calls of \<open>stopSession\<close> in a row, with
  any audio arriving and any reply of the backend during the first, emit exactly one
  \<open>close\<close> event and submit at most one final flush; the second call changes nothing and
  puts out nothing.
\<close>

theorem stopSession_twice:
  assumes "isConnected s"
  shows "let (s1, out1) = stopSession t1 chunks1 rep1 s;
             (s2, out2) = stopSession t2 chunks2 rep2 s1
         in count_list (out1 @ out2) EmitClose = 1 \<and>
            length (requests (out1 @ out2)) \<le> 1 \<and>
            s2 = s1 \<and> out2 = []"
proof -
  obtain sb outb w where b: "stopSession_begin t1 s = (sb, outb, w)"
    by (cases "stopSession_begin t1 s") auto
  obtain s1 out1 where one: "stopSession t1 chunks1 rep1 s = (s1, out1)"
    by (cases "stopSession t1 chunks1 rep1 s") auto
  have first: "\<not> isConnected s1 \<and> count_list out1 EmitClose = 1 \<and> length (requests out1) \<le> 1"
  proof (cases w)
    case False
    obtain sp outp wp where p: "(if audioBuffer s \<noteq> [] then processBuffer_begin t1 s else (s, [], False)) = (sp, outp, wp)"
      by (cases "(if audioBuffer s \<noteq> [] then processBuffer_begin t1 s else (s, [], False))") auto
    have pc: "length (requests outp) \<le> 1 \<and> EmitClose \<notin> set outp"
      using p processBuffer_begin_cases [of t1 s sp outp wp]
      by (auto simp: requests_def split: if_splits)
    have "\<not> wp" using b p False assms
      by (auto simp: stopSession_begin_def stopSession_finish_def split: if_splits)
    then have "s1 = fst (stopSession_finish sp)" "out1 = outp @ [EmitClose]"
      using one b p assms False
      by (auto simp: stopSession_def stopSession_begin_def stopSession_finish_def split: if_splits)
    then show ?thesis using pc
      by (simp add: stopSession_finish_def requests_append requests_close count_list_0_iff)
  next
    case True
    have pb: "processBuffer_begin t1 s = (sb, outb, True)"
      using b True assms
      by (auto simp: stopSession_begin_def stopSession_finish_def Let_def split: if_splits prod.splits)
    have pc: "isConnected sb" "isProcessing sb" "length (requests outb) \<le> 1" "EmitClose \<notin> set outb"
      using processBuffer_begin_cases [OF pb] assms by auto
    let ?s2 = "sb\<lparr>audioBuffer := audioBuffer sb @ filter (\<lambda>a. a \<noteq> []) (map fst chunks1)\<rparr>"
    have sa: "sendAll chunks1 (sb, outb) = (?s2, outb)"
      by (rule sendAll_in_flight [OF pc(1,2)])
    obtain s3 out3 where r: "processBuffer_resume rep1 ?s2 = (s3, out3)"
      by (cases "processBuffer_resume rep1 ?s2") auto
    have rc: "requests out3 = []" "EmitClose \<notin> set out3"
      using processBuffer_resume_out [OF r] by auto
    have "s1 = fst (stopSession_finish s3)" "out1 = outb @ out3 @ [EmitClose]"
      using one b True sa r by (auto simp: stopSession_def stopSession_finish_def)
    then show ?thesis using pc rc
      by (simp add: stopSession_finish_def requests_append requests_close count_list_0_iff)
  qed
  have second: "stopSession t2 chunks2 rep2 s1 = (s1, [])"
    using first by (simp add: stopSession_def stopSession_begin_def)
  show ?thesis
    using first second by (simp add: one requests_def)
qed


text \<open>The theorem on a session that holds one chunk when it is stopped.\<close>

theorem stopSession_twice_witness:
  "isConnected (client (exec [StartSession 0, SendAudio [1, 2] 100]
                          (fresh (new_GroqSTTClient ''key'' 0)))) \<and>
   (let (s1, out1) = stopSession 200 [] (Transcription ''hello'' None)
                       (client (exec [StartSession 0, SendAudio [1, 2] 100]
                                  (fresh (new_GroqSTTClient ''key'' 0))));
        (s2, out2) = stopSession 300 [] Rejected s1
    in count_list (out1 @ out2) EmitClose = 1 \<and> length (requests (out1 @ out2)) \<le> 1 \<and>
       s2 = s1 \<and> out2 = [])"
proof -
  let ?s = "client (exec [StartSession 0, SendAudio [1, 2] 100]
                      (fresh (new_GroqSTTClient ''key'' 0)))"
  have c: "isConnected ?s" by (simp add: session_defs)
  show ?thesis
    using c stopSession_twice [OF c, of 200 "[]" "Transcription ''hello'' None" 300 "[]" Rejected]
    by (rule conjI)
qed

text \<open>
  Claim C1 says that every chunk accepted while a flush is in flight is in the blob of the
  next flush. In this run the chunk [3, 4] is accepted after the flush of [1, 2] has begun
  and before it completes; \<open>stopSession\<close> is then called while that flush is still in
  flight, \<open>processBuffer\<close> returns at once because \<open>isProcessing\<close> is set, and the
  buffer is cleared: the only request of the run holds [1, 2], and [3, 4] is transcribed
  never.
\<close>

theorem stop_during_flush_drops_audio:
  "(let r = exec [StartSession 0, SendAudio [1, 2] 3000, SendAudio [3, 4] 3100,
                  StopSession 3200, FlushDone (Transcription ''hello'' None)]
                 (fresh (new_GroqSTTClient ''key'' 0))
    in accepted r = [[1, 2], [3, 4]] \<and>
       requests (trace r) = [wav_header 2 @ [1, 2]] \<and>
       trace r = [EmitOpen, Request (wav_header 2 @ [1, 2]), EmitClose,
                  EmitTranscription ''hello'' None] \<and>
       \<not> isConnected (client r) \<and> audioBuffer (client r) = [])"
  by (simp add: session_defs wav_small trim_def is_space_def)

text \<open>
  Without such a stop the chunks do reach the next flush: after a flush has begun, the
  chunks sent until its reply are put out in no request, are the whole buffer when the
  reply has been handled, and are the audio of the next flush when it begins.
\<close>

lemma chunks_in_flight_reach_next_flush:
  assumes "isConnected s" and "processBuffer_begin t0 s = (s1, out1, True)"
  shows "let kept = filter (\<lambda>a. a \<noteq> []) (map fst chunks);
             (s2, out2) = sendAll chunks (s1, []);
             (s3, out3) = processBuffer_resume rep s2
         in out2 = [] \<and> requests out3 = [] \<and> audioBuffer s3 = kept \<and>
            isConnected s3 \<and> \<not> isProcessing s3 \<and>
            (\<forall>w. kept \<noteq> [] \<longrightarrow> createWavBuffer (concat kept) = Inr w \<longrightarrow>
                 snd (processBuffer_begin t1 s3) = ([Request w], True))"
proof -
  have b: "isConnected s1" "isProcessing s1" "audioBuffer s1 = []"
    using processBuffer_begin_cases [OF assms(2)] assms(1) by auto
  let ?kept = "filter (\<lambda>a. a \<noteq> []) (map fst chunks)"
  have sa: "sendAll chunks (s1, []) = (s1\<lparr>audioBuffer := ?kept\<rparr>, [])"
    using sendAll_in_flight [OF b(1,2), of chunks "[]"] b(3) by simp
  obtain s3 out3 where r: "processBuffer_resume rep (s1\<lparr>audioBuffer := ?kept\<rparr>) = (s3, out3)"
    by (cases "processBuffer_resume rep (s1\<lparr>audioBuffer := ?kept\<rparr>)") auto
  have s3: "s3 = s1\<lparr>audioBuffer := ?kept, isProcessing := False\<rparr>"
    using r by (auto simp: processBuffer_resume_def split: reply.splits)
  have r3: "requests out3 = []" using processBuffer_resume_out [OF r] by simp
  have nxt: "snd (processBuffer_begin t1 s3) = ([Request w], True)"
    if "?kept \<noteq> []" "createWavBuffer (concat ?kept) = Inr w" for w
    using that by (simp add: processBuffer_begin_def s3)
  show ?thesis
    using sa r r3 nxt b by (simp add: Let_def s3)
qed

text \<open>
  A rejected request in any state of the client: one error line, no event, and the
  processing flag cleared; nothing else changes.
\<close>

lemma rejected_flush_general:
  "processBuffer_resume Rejected s = (s\<lparr>isProcessing := False\<rparr>, [Err])"
  by (simp add: processBuffer_resume_def)

text \<open>
  Claim C7 says that a failed backend call is logged and emitted as an \<open>error\<close> event,
  that its audio is dropped and that the session goes on. In this run the request for
  [1, 2] is rejected: the client writes its error line and emits nothing; the audio is
  gone, the session is still connected and accepts [3, 4].
\<close>

theorem rejected_flush_emits_no_error:
  "(let r = exec [StartSession 0, SendAudio [1, 2] 3000, FlushDone Rejected, SendAudio [3, 4] 3100]
                 (fresh (new_GroqSTTClient ''key'' 0))
    in trace r = [EmitOpen, Request (wav_header 2 @ [1, 2]), Err] \<and>
       isConnected (client r) \<and> \<not> isProcessing (client r) \<and>
       accepted r = [[1, 2], [3, 4]] \<and> audioBuffer (client r) = [[3, 4]])"
  by (simp add: session_defs wav_small trim_def is_space_def)

section \<open>Properties of the agent\<close>

lemma analyze_try_backend_failure: "analyze_try p ApiFailure t = Inl BackendError"
  by (simp add: analyze_try_def)

lemma analyze_try_usage_failure: "analyze_try p (Completion c UsageFailed) t = Inl BackendError"
  by (simp add: analyze_try_def)

lemma analyze_try_no_object:
  "extractJsonObject (stripFence (case c of None \<Rightarrow> [] | Some x \<Rightarrow> trim x)) = Inl e \<Longrightarrow>
   u \<noteq> UsageFailed \<Longrightarrow> analyze_try p (Completion c u) t = Inl e"
  by (simp add: analyze_try_def bindE_def)

lemma analyze_try_parse_failure:
  "extractJsonObject (stripFence (case c of None \<Rightarrow> [] | Some x \<Rightarrow> trim x)) = Inr j \<Longrightarrow>
   p j = None \<Longrightarrow> u \<noteq> UsageFailed \<Longrightarrow> analyze_try p (Completion c u) t = Inl SyntaxError"
  by (simp add: analyze_try_def bindE_def)

lemma analyze_fallback:
  "analyze_try p reply t = Inl e \<Longrightarrow> t \<noteq> [] \<Longrightarrow> trim t \<noteq> [] \<Longrightarrow>
   analyze a p reply t = Inr \<lparr>text' = t, commands = []\<rparr>"
  by (simp add: analyze_def)

text \<open>
  Claim C3. \<open>analyze\<close> returns a result for every transcript and never raises. When the
  agent is enabled and the transcript is not blank, so that the backend is called, a failed
  backend call, a failed recording of the usage, a reply without a JSON object and a
  failure of \<open>JSON.parse\<close>, as any other exception in the \<open>try\<close> block, give the
  original transcript as text and no command.
\<close>

theorem analyze_total:
  "(\<exists>r. analyze a p reply t = Inr r) \<and>
   (isEnabled a \<and> trim t \<noteq> [] \<and>
    (reply = ApiFailure \<or>
     (\<exists>c u. reply = Completion c u \<and>
        (u = UsageFailed \<or>
         (\<exists>e. extractJsonObject (stripFence (case c of None \<Rightarrow> [] | Some x \<Rightarrow> trim x)) = Inl e) \<or>
         (\<exists>j. extractJsonObject (stripFence (case c of None \<Rightarrow> [] | Some x \<Rightarrow> trim x)) = Inr j \<and>
              p j = None))) \<or>
     (\<exists>e. analyze_try p reply t = Inl e)) \<longrightarrow>
    analyze a p reply t = Inr \<lparr>text' = t, commands = []\<rparr>)"
proof (intro conjI impI)
  show "\<exists>r. analyze a p reply t = Inr r"
    by (auto simp: analyze_def split: sum.splits)
next
  assume h: "isEnabled a \<and> trim t \<noteq> [] \<and>
    (reply = ApiFailure \<or>
     (\<exists>c u. reply = Completion c u \<and>
        (u = UsageFailed \<or>
         (\<exists>e. extractJsonObject (stripFence (case c of None \<Rightarrow> [] | Some x \<Rightarrow> trim x)) = Inl e) \<or>
         (\<exists>j. extractJsonObject (stripFence (case c of None \<Rightarrow> [] | Some x \<Rightarrow> trim x)) = Inr j \<and>
              p j = None))) \<or>
     (\<exists>e. analyze_try p reply t = Inl e))"
  then have t: "t \<noteq> []" "trim t \<noteq> []" by (auto simp: trim_def)
  have "\<exists>e. analyze_try p reply t = Inl e"
    using h analyze_try_backend_failure [of p t] analyze_try_usage_failure [of p _ t]
      analyze_try_no_object [of _ _ _ p t] analyze_try_parse_failure [of _ _ p _ t]
    by (metis (full_types))
  then show "analyze a p reply t = Inr \<lparr>text' = t, commands = []\<rparr>"
    using analyze_fallback t by blast
qed

text \<open>
  An enabled agent whose backend answers with text that \<open>JSON.parse\<close> rejects: the
  transcript comes back unchanged.
\<close>

theorem analyze_total_witness:
  "isEnabled \<lparr>agentEnabled = True, agentClient = True\<rparr> \<and> trim ''hello send it'' \<noteq> [] \<and>
   extractJsonObject (stripFence (trim '' {not json} '')) = Inr ''{not json}'' \<and>
   analyze \<lparr>agentEnabled = True, agentClient = True\<rparr> (\<lambda>s. None)
       (Completion (Some '' {not json} '') NoUsage) ''hello send it''
     = Inr \<lparr>text' = ''hello send it'', commands = []\<rparr>"
proof -
  have e: "isEnabled \<lparr>agentEnabled = True, agentClient = True\<rparr>"
    by (simp add: isEnabled_def)
  have t: "trim ''hello send it'' \<noteq> []"
    by (simp add: trim_def is_space_def)
  have x: "extractJsonObject (stripFence (trim '' {not json} '')) = Inr ''{not json}''"
    by (simp add: extractJsonObject_def stripFence_def trim_def is_space_def slice_def)
  show ?thesis
    using e t x
      analyze_total [of "\<lparr>agentEnabled = True, agentClient = True\<rparr>" "\<lambda>s. None"
        "Completion (Some '' {not json} '') NoUsage" "''hello send it''"]
    by auto
qed

section \<open>Properties of the controller\<close>

lemmas ctrl_defs = setState_def stop_def handleError_def stopBackgroundListening_def
  start_failed_def start_def

text \<open>
  Claim C9. \<open>stop()\<close> in state \<open>idle\<close> leaves the controller as it is and emits no
  event; \<open>start()\<close> in state \<open>listening\<close> leaves the controller as it is, emits no
  event and starts nothing. Each writes one warning.
\<close>

theorem stop_idle_start_listening_noop:
  "(state c = idle \<longrightarrow> stop c = (c, [LogWarn])) \<and>
   (state c = listening \<longrightarrow> start env c = (Inr (), c, [LogWarn]))"
  by (simp add: stop_def start_def)

text \<open>The theorem on a new controller and on one that listens.\<close>

theorem stop_idle_start_listening_noop_witness:
  "state newController = idle \<and> stop newController = (newController, [LogWarn]) \<and>
   state (newController\<lparr>state := listening, finalTextBuffer := ''hello''\<rparr>) = listening \<and>
   start exampleCollaborators (newController\<lparr>state := listening, finalTextBuffer := ''hello''\<rparr>)
     = (Inr (), newController\<lparr>state := listening, finalTextBuffer := ''hello''\<rparr>, [LogWarn])"
  using stop_idle_start_listening_noop [of newController]
    stop_idle_start_listening_noop
      [of "newController\<lparr>state := listening, finalTextBuffer := ''hello''\<rparr>" exampleCollaborators]
  by (simp add: newController_def)

lemma start_not_authenticated:
  "state c \<noteq> listening \<Longrightarrow> \<not> authenticated env \<Longrightarrow>
   start env c =
     (Inl NotAuthenticated, c\<lparr>state := idle\<rparr>,
      [LogError, Emit EvAuthenticationRequired, LogError, LogError,
       Emit (EvStateChange (state c) error), Emit (EvError NotAuthenticated),
       MicStop, SttStopSession, Emit (EvStateChange error idle), Emit EvStopped])"
  by (simp add: ctrl_defs)

lemma start_not_activated:
  "state c \<noteq> listening \<Longrightarrow> authenticated env \<Longrightarrow> \<not> hasPermission env \<Longrightarrow>
   start env c =
     (Inl NotActivated, c\<lparr>state := idle\<rparr>,
      [LogError, Emit (EvActivationRequired ''stt''), LogError, LogError,
       Emit (EvStateChange (state c) error), Emit (EvError NotActivated),
       MicStop, SttStopSession, Emit (EvStateChange error idle), Emit EvStopped])"
  by (simp add: ctrl_defs)

lemma start_over_quota:
  "state c \<noteq> listening \<Longrightarrow> authenticated env \<Longrightarrow> hasPermission env \<Longrightarrow> \<not> limitAllowed env \<Longrightarrow>
   start env c =
     (Inl TokenLimit, c\<lparr>state := idle\<rparr>,
      [LogError, Emit EvTokenLimitExceeded, LogError, LogError,
       Emit (EvStateChange (state c) error), Emit (EvError TokenLimit),
       MicStop, SttStopSession, Emit (EvStateChange error idle), Emit EvStopped])"
  by (simp add: ctrl_defs)

text \<open>
  Claim C6, amended. When \<open>start()\<close> is called in a state other than \<open>listening\<close>
  while the caller is not authenticated, not entitled to STT or over quota, it fails
  without starting the transcription session or the microphone; the checks run in this
  order, and each failure gives its own signal and no other: \<open>authenticationRequired\<close>,
  then \<open>activationRequired\<close>, then \<open>tokenLimitExceeded\<close>.
\<close>

theorem start_preconditions:
  assumes "state c \<noteq> listening"
  shows "(\<not> authenticated env \<longrightarrow>
            (\<exists>c' out. start env c = (Inl NotAuthenticated, c', out) \<and>
               signals out = [EvAuthenticationRequired] \<and>
               SttStartSession \<notin> set out \<and> MicStart \<notin> set out)) \<and>
         (authenticated env \<and> \<not> hasPermission env \<longrightarrow>
            (\<exists>c' out. start env c = (Inl NotActivated, c', out) \<and>
               signals out = [EvActivationRequired ''stt''] \<and>
               SttStartSession \<notin> set out \<and> MicStart \<notin> set out)) \<and>
         (authenticated env \<and> hasPermission env \<and> \<not> limitAllowed env \<longrightarrow>
            (\<exists>c' out. start env c = (Inl TokenLimit, c', out) \<and>
               signals out = [EvTokenLimitExceeded] \<and>
               SttStartSession \<notin> set out \<and> MicStart \<notin> set out))"
  using assms
  by (auto simp: start_not_authenticated start_not_activated start_over_quota signals_def)

text \<open>The theorem on a new controller, once for each failing check.\<close>

theorem start_preconditions_witness:
  "state newController \<noteq> listening \<and>
   \<not> authenticated (exampleCollaborators\<lparr>authenticated := False, hasPermission := False,
                                          limitAllowed := False\<rparr>) \<and>
   (\<exists>c' out. start (exampleCollaborators\<lparr>authenticated := False, hasPermission := False,
                                           limitAllowed := False\<rparr>) newController
                = (Inl NotAuthenticated, c', out) \<and>
      signals out = [EvAuthenticationRequired] \<and>
      SttStartSession \<notin> set out \<and> MicStart \<notin> set out) \<and>
   (\<exists>c' out. start (exampleCollaborators\<lparr>hasPermission := False, limitAllowed := False\<rparr>)
                newController = (Inl NotActivated, c', out) \<and>
      signals out = [EvActivationRequired ''stt''] \<and>
      SttStartSession \<notin> set out \<and> MicStart \<notin> set out) \<and>
   (\<exists>c' out. start (exampleCollaborators\<lparr>limitAllowed := False\<rparr>) newController
                = (Inl TokenLimit, c', out) \<and>
      signals out = [EvTokenLimitExceeded] \<and>
      SttStartSession \<notin> set out \<and> MicStart \<notin> set out)"
proof -
  have s: "state newController \<noteq> listening" by (simp add: newController_def)
  show ?thesis
    using s
      start_preconditions [OF s, of "exampleCollaborators\<lparr>authenticated := False,
         hasPermission := False, limitAllowed := False\<rparr>"]
      start_preconditions [OF s, of "exampleCollaborators\<lparr>hasPermission := False,
         limitAllowed := False\<rparr>"]
      start_preconditions [OF s, of "exampleCollaborators\<lparr>limitAllowed := False\<rparr>"]
    by (simp add: exampleCollaborators_def)
qed

text \<open>
  In state \<open>listening\<close> the guard at the head of \<open>start()\<close> returns before any
  check: for a caller who is not authenticated the call does not fail and gives no signal.
\<close>

theorem start_while_listening_counterexample:
  "start (exampleCollaborators\<lparr>authenticated := False\<rparr>) (newController\<lparr>state := listening\<rparr>)
     = (Inr (), newController\<lparr>state := listening\<rparr>, [LogWarn])"
  by (simp add: start_def newController_def)

text \<open>
  A session that fails to start: the listener's \<open>handleError\<close> and the one of the
  \<open>catch\<close> both run. A microphone that fails to start for another reason than a
  missing device: both run before the two \<open>stop()\<close> calls come to their end.
\<close>

lemma start_session_raises:
  assumes "state c = idle" "\<not> backgroundListening c" "authenticated env" "hasPermission env"
    "limitAllowed env" "sttStart env = Some e"
  shows "snd (snd (start env c)) =
     [Emit (EvStateChange idle listening), SttStartSession,
      LogError, Emit (EvStateChange listening error), Emit (EvError e),
      MicStop, SttStopSession, Emit (EvStateChange error idle), Emit EvStopped,
      LogError, LogError, Emit (EvStateChange idle error), Emit (EvError e),
      MicStop, SttStopSession, Emit (EvStateChange error idle), Emit EvStopped]"
  using assms by (simp add: ctrl_defs sessionErrorListener_def)

lemma start_microphone_raises:
  assumes "state c = idle" "\<not> backgroundListening c" "authenticated env" "hasPermission env"
    "limitAllowed env" "sttStart env = None" "micStart env = Some e" "e \<noteq> DeviceError"
  shows "snd (snd (start env c)) =
     [Emit (EvStateChange idle listening), SttStartSession, MicStart,
      LogError, Emit (EvStateChange listening error), Emit (EvError e), MicStop, SttStopSession,
      LogError, LogError, Emit (EvStateChange error error), Emit (EvError e),
      MicStop, SttStopSession,
      Emit (EvStateChange error idle), Emit EvStopped,
      Emit (EvStateChange idle idle), Emit EvStopped]"
  using assms
  by (simp add: ctrl_defs start_microphone_failed_def handleError_begin_def stop_finish_def)

section \<open>The text accumulator\<close>

lemma typed_append: "typed (a @ b) = typed a @ typed b"
  by (simp add: typed_def)

lemma executed_append: "executed (a @ b) = executed a @ executed b"
  by (simp add: executed_def)

lemma typed_simps [simp]:
  "typed [] = []" "typed (TypeText t # out) = t # typed out"
  "typed (ExecuteCommand k # out) = typed out" "typed (Emit e # out) = typed out"
  "typed (LogError # out) = typed out"
  by (simp_all add: typed_def)

lemma executed_simps [simp]:
  "executed [] = []" "executed (TypeText t # out) = executed out"
  "executed (ExecuteCommand k # out) = k # executed out" "executed (Emit e # out) = executed out"
  "executed (LogError # out) = executed out"
  by (simp_all add: executed_def)

lemma typed_other: "\<forall>t. a \<noteq> TypeText t \<Longrightarrow> typed (a # out) = typed out"
  by (cases a) (simp_all add: typed_def)

lemma executed_other: "\<forall>k. a \<noteq> ExecuteCommand k \<Longrightarrow> executed (a # out) = executed out"
  by (cases a) (simp_all add: executed_def)

lemma fragments_simps [simp]:
  "fragments [] = []" "fragments (Type f # ops) = f # fragments ops"
  "fragments (Append # ops) = fragments ops" "fragments (Press k # ops) = fragments ops"
  "fragments (Reset # ops) = fragments ops" "fragments (Signal e # ops) = fragments ops"
  "fragments (ErrorLine # ops) = fragments ops" "fragments (Await # ops) = fragments ops"
  by (simp_all add: fragments_def)

lemma fragments_append: "fragments (a @ b) = fragments a @ fragments b"
  by (simp add: fragments_def)

subsection \<open>Running operations\<close>

lemma runOps_append:
  "runOps (a @ b) s =
     (fst (runOps b (fst (runOps a s))), snd (runOps a s) @ snd (runOps b (fst (runOps a s))))"
  by (induction a arbitrary: s) (simp_all add: split_beta Let_def)

lemma runOps_shaped:
  assumes "shaped ops"
  shows "typed (snd (runOps ops (l, c))) = fst (spacingRule (finalTextBuffer c \<noteq> []) ops) \<and>
         (finalTextBuffer (snd (fst (runOps ops (l, c)))) \<noteq> []) =
           snd (spacingRule (finalTextBuffer c \<noteq> []) ops)"
  using assms
proof (induction ops arbitrary: l c rule: shaped.induct)
  case shaped_Nil
  show ?case by simp
next
  case (shaped_Type ops f)
  show ?case
    using shaped_Type.IH
      [of "if finalTextBuffer c \<noteq> [] then CHR '' '' # f else f"
          "c\<lparr>finalTextBuffer := finalTextBuffer c @
               (if finalTextBuffer c \<noteq> [] then CHR '' '' # f else f)\<rparr>"]
    by (simp add: split_beta Let_def)
next
  case (shaped_Enter ops)
  show ?case
    using shaped_Enter.IH [of l "c\<lparr>finalTextBuffer := []\<rparr>"]
    by (simp add: split_beta Let_def)
next
  case (shaped_Press k ops)
  show ?case
    using shaped_Press.IH [of l c] shaped_Press.hyps(1)
    by (simp add: split_beta Let_def)
next
  case (shaped_Signal ops e)
  show ?case
    using shaped_Signal.IH [of l c]
    by (simp add: split_beta Let_def)
next
  case (shaped_ErrorLine ops)
  show ?case
    using shaped_ErrorLine.IH [of l c]
    by (simp add: split_beta Let_def)
next
  case (shaped_Await ops)
  show ?case
    using shaped_Await.IH [of l c]
    by (simp add: split_beta Let_def)
qed

lemma runOps_executed:
  "(''enter'' \<in> set (executed (snd (runOps ops s)))) = (Press ''enter'' \<in> set ops)"
proof (induction ops arbitrary: s)
  case Nil
  show ?case by simp
next
  case (Cons x ops)
  obtain l c where s: "s = (l, c)" by (cases s)
  show ?case
    using Cons.IH [of "fst (perform x (l, c))"]
    by (cases x) (auto simp: s split_beta Let_def)
qed

subsection \<open>The spacing rule\<close>

lemma spacingRule_append:
  "spacingRule d (a @ b) =
     (fst (spacingRule d a) @ fst (spacingRule (snd (spacingRule d a)) b),
      snd (spacingRule (snd (spacingRule d a)) b))"
  by (induction d a rule: spacingRule.induct) (simp_all add: split_beta Let_def)

lemma spacingRule_length: "length (fst (spacingRule d ops)) = length (fragments ops)"
  by (induction d ops rule: spacingRule.induct) (simp_all add: split_beta Let_def)

lemma spacingRule_quiet:
  "fragments ops = [] \<Longrightarrow> spacingRule False ops = ([], False)"
  by (induction ops) (auto simp: fragments_def split: op.splits)

lemma spacingRule_no_enter:
  "Press ''enter'' \<notin> set ops \<Longrightarrow> [] \<notin> set (fragments ops) \<Longrightarrow>
   fst (spacingRule d ops) =
     (if d then map ((#) CHR '' '') (fragments ops)
      else (case fragments ops of [] \<Rightarrow> [] | f # fs \<Rightarrow> f # map ((#) CHR '' '') fs))"
  by (induction d ops rule: spacingRule.induct) (auto simp: split_beta Let_def)

lemma spacingRule_after_enter:
  assumes "fragments mid = []"
  shows "fst (spacingRule d (pre @ Press ''enter'' # mid @ Type f # post)) ! length (fragments pre) = f"
proof -
  have "fst (spacingRule d' (Press ''enter'' # mid @ Type f # post)) ! 0 = f" for d'
    using assms by (simp add: spacingRule_append spacingRule_quiet split_beta Let_def)
  then show ?thesis
    by (simp add: spacingRule_append [of d pre] nth_append spacingRule_length)
qed

lemma spacingRule_enter_last:
  assumes "fragments post = []"
  shows "snd (spacingRule d (pre @ Press ''enter'' # post)) = False"
  using assms by (simp add: spacingRule_append [of d pre] spacingRule_quiet)

subsection \<open>Case folding\<close>

lemma toLowerChar_idem: "toLowerChar (toLowerChar c) = toLowerChar c"
  by (auto simp: toLowerChar_def Let_def)


lemma set_trim: "set (trim s) \<subseteq> set s"
  unfolding trim_def by (metis set_dropWhileD set_rev subsetI)

lemma toLowerCase_trim_lower: "toLowerCase (trim (toLowerCase s)) = trim (toLowerCase s)"
proof -
  have "\<forall>x\<in>set (trim (toLowerCase s)). toLowerChar x = x"
    using set_trim [of "toLowerCase s"] by (auto simp: toLowerCase_def toLowerChar_idem)
  then show ?thesis
    unfolding toLowerCase_def [of "trim (toLowerCase s)"] by (simp add: map_idI)
qed

lemma variations_lower: "\<forall>v\<in>snd ` set variations. toLowerCase v = v"
  by (simp add: variations_def toLowerCase_def char_classes)

lemma commandMapping_lower: "\<forall>v\<in>snd ` set commandMapping. toLowerCase v = v"
  by (simp add: commandMapping_def toLowerCase_def char_classes)

lemma normalizeCommand_lower:
  assumes "normalizeCommand cmd = Some (Token k)"
  shows "toLowerCase k = k"
proof -
  have v: "map_of variations n = Some v \<Longrightarrow> toLowerCase v = v" for n v
    using variations_lower by (metis map_of_SomeD snd_conv image_eqI)
  have m: "map_of commandMapping n = Some v \<Longrightarrow> toLowerCase v = v" for n v
    using commandMapping_lower by (metis map_of_SomeD snd_conv image_eqI)
  show ?thesis
    using assms v m
    by (auto simp: normalizeCommand_def Let_def toLowerCase_trim_lower
             split: json.splits if_splits option.splits)
qed

lemma analyze_try_lower:
  assumes "analyze_try jp r t = Inr res" "Token k \<in> set (commands res)"
  shows "toLowerCase k = k"
proof -
  have n: "Token k \<in> set (map the (filter (\<lambda>c. c \<noteq> None) (map normalizeCommand cmds)))
             \<Longrightarrow> toLowerCase k = k" for cmds
    using normalizeCommand_lower by force
  show ?thesis
    using assms n
    by (auto simp: analyze_try_def bindE_def Let_def
             split: completion.splits if_splits sum.splits option.splits json.splits)
qed

lemma analyze_lower:
  assumes "analyze a jp r t = Inr res" "Token k \<in> set (commands res)"
  shows "toLowerCase k = k"
  using assms analyze_try_lower [of jp r t]
  by (auto simp: analyze_def split: if_splits sum.splits)

subsection \<open>The shape of a pass\<close>

lemma shaped_append: "shaped a \<Longrightarrow> shaped b \<Longrightarrow> shaped (a @ b)"
  by (induction a rule: shaped.induct) (auto intro: shaped.intros)

lemma shaped_typeFragment: "shaped (typeFragment f)"
  by (simp add: typeFragment_def shaped.intros)

lemma shaped_executeParsed: "shaped (executeParsed v)"
  by (cases "v = ''enter''") (simp_all add: executeParsed_def shaped.intros)

lemma shaped_typePlain: "shaped (typePlain t)"
  by (simp add: typePlain_def typeFragment_def shaped.intros)

lemma shaped_standardPass: "shaped (standardPass env t)"
  by (auto simp: standardPass_def Let_def split: option.splits prod.splits
           intro!: shaped_append shaped_typeFragment shaped_executeParsed shaped_typePlain
                   shaped.intros)

lemma shaped_executeCommands:
  "\<forall>k. Token k \<in> set ks \<longrightarrow> toLowerCase k = k \<Longrightarrow> shaped (fst (executeCommands ks))"
proof (induction ks)
  case Nil
  show ?case by (simp add: shaped.intros)
next
  case (Cons x rest)
  show ?case
  proof (cases x)
    case (Token k)
    have r: "shaped (fst (executeCommands rest))" using Cons by simp
    have k: "toLowerCase k = k" using Cons.prems Token by simp
    show ?thesis
      using r k Token by (cases "k = ''enter''") (simp_all add: split_beta shaped.intros)
  next
    case ObjectConstructor
    then show ?thesis by (simp add: shaped.intros)
  next
    case ObjectPrototype
    then show ?thesis by (simp add: shaped.intros)
  qed
qed

lemma shaped_agentProcessing:
  assumes "\<forall>k. Token k \<in> set (commands a) \<longrightarrow> toLowerCase k = k"
  shows "shaped (fst (agentProcessing a t))"
  using shaped_executeCommands [OF assms]
  by (auto simp: agentProcessing_def Let_def split_beta
           intro!: shaped_append shaped_typeFragment shaped.intros)

lemma shaped_translate: "shaped (snd (translate env t))"
  by (simp add: translate_def shaped.intros split: option.splits translation.splits)

lemma shaped_pipelinePass: "shaped (pipelinePass env t)"
proof -
  have c: "shaped ([ErrorLine, ErrorLine] @ standardPass env u)" for u
    by (simp add: shaped.intros shaped_standardPass)
  have a: "shaped (case analyze (crewAIAgent env) (jsonParse env) (agentReply env) u of
                     Inr analysis \<Rightarrow>
                       (if snd (agentProcessing analysis u)
                        then fst (agentProcessing analysis u) @
                             [ErrorLine, ErrorLine] @ standardPass env u
                        else fst (agentProcessing analysis u))
                   | Inl e \<Rightarrow> [ErrorLine, ErrorLine] @ standardPass env u)" for u
  proof (cases "analyze (crewAIAgent env) (jsonParse env) (agentReply env) u")
    case (Inl e)
    then show ?thesis using c [of u] by simp
  next
    case (Inr res)
    have "shaped (fst (agentProcessing res u))"
      using analyze_lower [OF Inr] by (intro shaped_agentProcessing) blast
    then show ?thesis
      using Inr c [of u] by (simp add: split_beta Let_def shaped_append)
  qed
  show ?thesis
    unfolding pipelinePass_def Let_def split_beta
    using a [of "fst (translate env t)"] shaped_standardPass [of env "fst (translate env t)"]
    by (auto intro!: shaped_append shaped_translate shaped.intros)
qed

subsection \<open>Passes and dictations\<close>

lemma pipeline_rule:
  "typed (snd (pipeline env t c)) =
     fst (spacingRule (finalTextBuffer c \<noteq> []) (pipelinePass env t))"
  "(finalTextBuffer (fst (pipeline env t c)) \<noteq> []) =
     snd (spacingRule (finalTextBuffer c \<noteq> []) (pipelinePass env t))"
  using runOps_shaped [OF shaped_pipelinePass, of env t "[]" c]
  by (simp_all add: pipeline_def runPass_def split_beta)

lemma pipeline_executed:
  "(''enter'' \<in> set (executed (snd (pipeline env t c)))) = (Press ''enter'' \<in> set (pipelinePass env t))"
  using runOps_executed [of "pipelinePass env t" "([], c)"]
  by (simp add: pipeline_def runPass_def split_beta)

lemma dictate_rule:
  "typed (snd (dictate ps c)) = fst (spacingRule (finalTextBuffer c \<noteq> []) (dictationOps ps)) \<and>
   (finalTextBuffer (fst (dictate ps c)) \<noteq> []) =
     snd (spacingRule (finalTextBuffer c \<noteq> []) (dictationOps ps))"
proof (induction ps arbitrary: c)
  case Nil
  show ?case by (simp add: dictationOps_def)
next
  case (Cons p ps)
  obtain env t where p: "p = (env, t)" by (cases p)
  have o: "dictationOps ((env, t) # ps) = pipelinePass env t @ dictationOps ps"
    by (simp add: dictationOps_def)
  show ?case
    using Cons.IH [of "fst (pipeline env t c)"] pipeline_rule [of env t c]
    by (simp add: p o split_beta Let_def typed_append spacingRule_append)
qed

lemma dictate_executed:
  "(''enter'' \<in> set (executed (snd (dictate ps c)))) = (Press ''enter'' \<in> set (dictationOps ps))"
proof (induction ps arbitrary: c)
  case Nil
  show ?case by (simp add: dictationOps_def)
next
  case (Cons p ps)
  obtain env t where p: "p = (env, t)" by (cases p)
  have o: "dictationOps ((env, t) # ps) = pipelinePass env t @ dictationOps ps"
    by (simp add: dictationOps_def)
  show ?case
    using Cons.IH [of "fst (pipeline env t c)"] pipeline_executed [of env t c]
    by (simp add: p o split_beta Let_def executed_append)
qed

lemma start_resets:
  "state c \<noteq> listening \<Longrightarrow> start env c = (Inr (), c', out) \<Longrightarrow> finalTextBuffer c' = []"
  by (auto simp: start_def start_failed_def start_microphone_failed_def Let_def split_beta
           split: if_splits option.splits)

text \<open>
  While the controller listens, a final transcript that is not blank and is not the
  deactivate phrase goes through the pipeline.
\<close>

lemma processFinalTranscription_pipeline:
  assumes "state c = listening" and "trim t \<noteq> []"
    and "\<not> enabled (triggerWordDetector env) \<or>
         (\<forall>r. detect (triggerWordDetector env) t = Some r \<longrightarrow> dtype r \<noteq> deactivate)"
  shows "processFinalTranscription env t True c =
           (Inr (), fst (pipeline env t c), snd (pipeline env t c))"
proof -
  have "t \<noteq> []" using assms(2) by (auto simp: trim_def)
  then show ?thesis
    using assms by (auto simp: processFinalTranscription_def split_beta split: option.splits)
qed

text \<open>
  Claim C5, amended. In a listening episode in which every pass of the pipeline finishes
  before the next transcript is handled, the texts typed follow the spacing rule of the
  specification: a fragment is typed with exactly one space in front when text has been
  typed since the start of the episode or since the last \<open>enter\<close> command, and as it is
  otherwise; and the accumulator is empty at the end exactly when the rule says so. So in
  a dictation that starts with an empty accumulator, has no empty fragment and executes
  no \<open>enter\<close>, the first fragment is typed as it is and the second and every later one
  with one space in front; the first fragment after an \<open>enter\<close> command is typed as it
  is; and when nothing is typed after an \<open>enter\<close> command the accumulator is empty at the
  end. The accumulator is emptied by a successful \<open>start()\<close>; \<open>stop()\<close> does not touch
  it.
\<close>

theorem accumulator_rule:
  "typed (snd (dictate ps c)) =
     fst (spacingRule (finalTextBuffer c \<noteq> []) (dictationOps ps)) \<and>
   (finalTextBuffer (fst (dictate ps c)) \<noteq> []) =
     snd (spacingRule (finalTextBuffer c \<noteq> []) (dictationOps ps)) \<and>
   (finalTextBuffer c = [] \<and> ''enter'' \<notin> set (executed (snd (dictate ps c))) \<and>
    [] \<notin> set (fragments (dictationOps ps)) \<longrightarrow>
      typed (snd (dictate ps c)) =
        (case fragments (dictationOps ps) of [] \<Rightarrow> [] | f # fs \<Rightarrow> f # map ((#) CHR '' '') fs)) \<and>
   (dictationOps ps = pre @ Press ''enter'' # mid @ Type f # post \<and> fragments mid = [] \<longrightarrow>
      length (fragments pre) < length (typed (snd (dictate ps c))) \<and>
      typed (snd (dictate ps c)) ! length (fragments pre) = f) \<and>
   (dictationOps ps = pre' @ Press ''enter'' # post' \<and> fragments post' = [] \<longrightarrow>
      finalTextBuffer (fst (dictate ps c)) = []) \<and>
   (state c \<noteq> listening \<and> fst (start env c) = Inr () \<longrightarrow>
      finalTextBuffer (fst (snd (start env c))) = [])"
proof (intro conjI impI)
  show "typed (snd (dictate ps c)) =
     fst (spacingRule (finalTextBuffer c \<noteq> []) (dictationOps ps))"
    using dictate_rule [of ps c] by simp
next
  show "(finalTextBuffer (fst (dictate ps c)) \<noteq> []) =
     snd (spacingRule (finalTextBuffer c \<noteq> []) (dictationOps ps))"
    using dictate_rule [of ps c] by simp
next
  assume h: "finalTextBuffer c = [] \<and> ''enter'' \<notin> set (executed (snd (dictate ps c))) \<and>
    [] \<notin> set (fragments (dictationOps ps))"
  then have "Press ''enter'' \<notin> set (dictationOps ps)"
    by (simp add: dictate_executed)
  then show "typed (snd (dictate ps c)) =
        (case fragments (dictationOps ps) of [] \<Rightarrow> [] | f # fs \<Rightarrow> f # map ((#) CHR '' '') fs)"
    using h dictate_rule [of ps c] spacingRule_no_enter [of "dictationOps ps" False]
    by simp
next
  assume h: "dictationOps ps = pre @ Press ''enter'' # mid @ Type f # post \<and> fragments mid = []"
  have "length (typed (snd (dictate ps c))) = length (fragments (dictationOps ps))"
    using dictate_rule [of ps c] by (simp add: spacingRule_length)
  then show "length (fragments pre) < length (typed (snd (dictate ps c)))"
    using h by (simp add: fragments_append)
next
  assume h: "dictationOps ps = pre @ Press ''enter'' # mid @ Type f # post \<and> fragments mid = []"
  then show "typed (snd (dictate ps c)) ! length (fragments pre) = f"
    using dictate_rule [of ps c] spacingRule_after_enter [of mid _ pre f post] by simp
next
  assume h: "dictationOps ps = pre' @ Press ''enter'' # post' \<and> fragments post' = []"
  then show "finalTextBuffer (fst (dictate ps c)) = []"
    using dictate_rule [of ps c] spacingRule_enter_last [of post' _ pre'] by simp
next
  assume h: "state c \<noteq> listening \<and> fst (start env c) = Inr ()"
  then have "start env c = (Inr (), fst (snd (start env c)), snd (snd (start env c)))"
    by (metis prod.collapse)
  then show "finalTextBuffer (fst (snd (start env c))) = []"
    using h start_resets by blast
qed

lemmas eval_defs = pipelinePass_def standardPass_def translate_def exampleCollaborators_def
  isEnabled_def tableParser_def commandTable_def matchCommandAt_def eq_ci_def
  toLowerCase_def commandWords_def substring_def trim_def
  is_boundary_def is_word_opt_def head_opt_def typePlain_def
  typeFragment_def executeParsed_def Let_def

lemma pass_hello:
  "pipelinePass exampleCollaborators ''hello'' =
     [Type ''hello'', Await, Append, Signal (EvText ''hello'')]"
  by (simp add: eval_defs char_classes)

lemma pass_world:
  "pipelinePass exampleCollaborators ''world'' =
     [Type ''world'', Await, Append, Signal (EvText ''world'')]"
  by (simp add: eval_defs char_classes)

lemma pass_send:
  "pipelinePass exampleCollaborators ''see you send'' =
     [Type ''see you'', Await, Append, Press ''enter'', Await, Reset,
      Signal (EvCommand ''enter'' ''see you send'')]"
  by (simp add: eval_defs char_classes)

lemma pass_next:
  "pipelinePass exampleCollaborators ''next'' =
     [Type ''next'', Await, Append, Signal (EvText ''next'')]"
  by (simp add: eval_defs char_classes)

lemma start_example:
  "start exampleCollaborators (newController\<lparr>finalTextBuffer := ''old''\<rparr>) =
     (Inr (), newController\<lparr>state := listening\<rparr>,
      [Emit (EvStateChange idle listening), SttStartSession, MicStart, Emit EvStarted])"
  by (simp add: start_def setState_def exampleCollaborators_def newController_def)

lemmas run_defs = pipeline_def runPass_def newController_def Let_def

text \<open>
  A dictation of "hello" and "world" on a new controller types "hello" and " world".
  After "hello world", the dictation of "see you send" and "next" types " see you",
  executes \<open>enter\<close> and types "next" without a space; the pass for "see you send" alone
  leaves the accumulator empty. \<open>start()\<close> empties an accumulator left over from an
  earlier episode.
\<close>

theorem accumulator_rule_witness:
  "finalTextBuffer newController = [] \<and>
   executed (snd (dictate [(exampleCollaborators, ''hello''), (exampleCollaborators, ''world'')]
        newController)) = [] \<and>
   fragments (dictationOps [(exampleCollaborators, ''hello''), (exampleCollaborators, ''world'')])
     = [''hello'', ''world''] \<and>
   typed (snd (dictate [(exampleCollaborators, ''hello''), (exampleCollaborators, ''world'')]
        newController)) = [''hello'', '' world''] \<and>
   dictationOps [(exampleCollaborators, ''see you send''), (exampleCollaborators, ''next'')] =
     [Type ''see you'', Await, Append] @ Press ''enter'' #
     [Await, Reset, Signal (EvCommand ''enter'' ''see you send'')] @ Type ''next'' #
     [Await, Append, Signal (EvText ''next'')] \<and>
   fragments [Await, Reset, Signal (EvCommand ''enter'' ''see you send'')] = [] \<and>
   typed (snd (dictate [(exampleCollaborators, ''see you send''), (exampleCollaborators, ''next'')]
        (newController\<lparr>finalTextBuffer := ''hello world''\<rparr>))) ! 1 = ''next'' \<and>
   dictationOps [(exampleCollaborators, ''see you send'')] =
     [Type ''see you'', Await, Append] @ Press ''enter'' #
     [Await, Reset, Signal (EvCommand ''enter'' ''see you send'')] \<and>
   finalTextBuffer (fst (dictate [(exampleCollaborators, ''see you send'')]
        (newController\<lparr>finalTextBuffer := ''hello world''\<rparr>))) = [] \<and>
   state (newController\<lparr>finalTextBuffer := ''old''\<rparr>) \<noteq> listening \<and>
   fst (start exampleCollaborators (newController\<lparr>finalTextBuffer := ''old''\<rparr>)) = Inr () \<and>
   finalTextBuffer (fst (snd (start exampleCollaborators (newController\<lparr>finalTextBuffer := ''old''\<rparr>)))) = []"
proof -
  let ?E = exampleCollaborators
  let ?ps = "[(?E, ''hello''), (?E, ''world'')]"
  let ?qs = "[(?E, ''see you send''), (?E, ''next'')]"
  let ?rs = "[(?E, ''see you send'')]"
  let ?c = "newController\<lparr>finalTextBuffer := ''hello world''\<rparr>"
  let ?mid = "[Await, Reset, Signal (EvCommand ''enter'' ''see you send'')]"
  have h1: "finalTextBuffer newController = []" by (simp add: newController_def)
  have e: "executed (snd (dictate ?ps newController)) = []"
    by (simp add: run_defs pass_hello pass_world)
  have h2: "''enter'' \<notin> set (executed (snd (dictate ?ps newController)))"
    by (subst e) simp
  have f: "fragments (dictationOps ?ps) = [''hello'', ''world'']"
    by (simp add: dictationOps_def pass_hello pass_world)
  have h3: "[] \<notin> set (fragments (dictationOps ?ps))" by (simp add: f)
  have q: "dictationOps ?qs =
     [Type ''see you'', Await, Append] @ Press ''enter'' # ?mid @ Type ''next'' #
     [Await, Append, Signal (EvText ''next'')]"
    by (simp add: dictationOps_def pass_send pass_next)
  have m: "fragments ?mid = []" by simp
  have r: "dictationOps ?rs = [Type ''see you'', Await, Append] @ Press ''enter'' # ?mid"
    by (simp add: dictationOps_def pass_send)
  have h5: "state (newController\<lparr>finalTextBuffer := ''old''\<rparr>) \<noteq> listening"
    by (simp add: newController_def)
  have h6: "fst (start ?E (newController\<lparr>finalTextBuffer := ''old''\<rparr>)) = Inr ()"
    by (simp add: start_example)
  have "typed (snd (dictate ?ps newController)) =
          (case fragments (dictationOps ?ps) of [] \<Rightarrow> [] | f # fs \<Rightarrow> f # map ((#) CHR '' '') fs)"
    using accumulator_rule [of ?ps newController "[]" "[]" "[]" "[]" "[]" "[]" ?E] h1 h2 h3
    by blast
  then have r1: "typed (snd (dictate ?ps newController)) = [''hello'', '' world'']"
    by (simp add: f del: dictate.simps)
  have "typed (snd (dictate ?qs ?c)) ! length (fragments [Type ''see you'', Await, Append])
          = ''next''"
    using accumulator_rule [of ?qs ?c "[Type ''see you'', Await, Append]" ?mid "''next''"
        "[Await, Append, Signal (EvText ''next'')]" "[]" "[]" ?E] q m
    by blast
  then have r2: "typed (snd (dictate ?qs ?c)) ! 1 = ''next''"
    by (simp del: dictate.simps)
  have r3: "finalTextBuffer (fst (dictate ?rs ?c)) = []"
    using accumulator_rule [of ?rs ?c "[]" "[]" "[]" "[]" "[Type ''see you'', Await, Append]" ?mid ?E]
      r m
    by blast
  have r4: "finalTextBuffer (fst (snd (start ?E (newController\<lparr>finalTextBuffer := ''old''\<rparr>)))) = []"
    using accumulator_rule [of "[]" "newController\<lparr>finalTextBuffer := ''old''\<rparr>"
        "[]" "[]" "[]" "[]" "[]" "[]" ?E] h5 h6
    by blast
  show ?thesis
    using h1 e f r1 q m r2 r r3 h5 h6 r4 by blast
qed

text \<open>\<open>stop()\<close> on a listening controller that has typed "hello" keeps the accumulator.\<close>

theorem stop_keeps_accumulator_counterexample:
  "finalTextBuffer (fst (stop (newController\<lparr>state := listening, finalTextBuffer := ''hello''\<rparr>)))
     = ''hello''"
  by (simp add: stop_def setState_def newController_def)

text \<open>
  The rule needs the passes to follow one another. When the transcript "world" arrives
  while the pass for "hello" is suspended at the await of \<open>typeText\<close>, the second pass
  reads the accumulator before the first has appended to it: "world" is typed without a
  space, where the dictation of the same transcripts types " world".
\<close>

lemma overlapping_passes:
  "interleave [0, 1, 0, 1]
     [([], pipelinePass exampleCollaborators ''hello''),
      ([], pipelinePass exampleCollaborators ''world'')] newController =
     (newController\<lparr>finalTextBuffer := ''helloworld''\<rparr>,
      [TypeText ''hello'', TypeText ''world'', Emit (EvText ''hello''), Emit (EvText ''world'')])"
  by (simp add: pass_hello pass_world newController_def Let_def)

text \<open>
  A command that is not a string: the agent's text is typed, \<open>executeCommand\<close> raises,
  and the standard processing types the transcript as well.
\<close>

lemma agent_raise_types_twice:
  "snd (pipeline
     (exampleCollaborators\<lparr>
        crewAIAgent := \<lparr>agentEnabled = True, agentClient = True\<rparr>,
        jsonParse := (\<lambda>s. Some (JObj [(''text'', JStr ''hi''),
                                         (''commands'', JArr [JStr ''constructor''])])),
        agentReply := Completion (Some ''{}'') NoUsage\<rparr>)
     ''hi there'' newController) =
   [TypeText ''hi'', LogError, LogError, LogError, TypeText '' hi there'', Emit (EvText ''hi there'')]"
  by (simp add: run_defs eval_defs analyze_def analyze_try_def bindE_def extractJsonObject_def
      stripFence_def slice_def normalizeCommand_def agentProcessing_def isToken_def
      char_classes)

section \<open>The fallback grammar\<close>

subsection \<open>Case folding and the character classes\<close>















subsection \<open>The last occurrence\<close>




subsection \<open>The match of the regular expression\<close>




subsection \<open>The command word at the end of a transcript\<close>




lemmas pass_defs = standardProcessing_def runPass_def standardPass_def typePlain_def
  typeFragment_def executeParsed_def newController_def Let_def split_beta



lemmas grammar_defs = pass_defs matchCommandAt_def eq_ci_def
  toLowerCase_def commandWords_def substring_def trim_def
  is_boundary_def is_word_opt_def head_opt_def







text \<open>
  The theorem needs the transcript to begin without white space. The position of the
  command word is found in the trimmed text and applied to the text itself, so a
  transcript that begins with two blanks, as a translation can, loses the two last
  characters in front of the command word.
\<close>

lemma leading_space_shifts_index:
  "typed (snd (standardProcessing exampleCollaborators ''  hello send'' newController)) = [''hell'']"
  by (simp add: grammar_defs exampleCollaborators_def tableParser_def commandTable_def
      char_classes)

end
